theory Spec2Isabelle
  imports Main "HOL-Library.Word"
begin

section \<open>EventStateMachine: the state, timeout and callback engine\<close>

text \<open>
  A shallow embedding of \<^verbatim>\<open>EventStateMachine.cpp\<close> and of the multi-platform header that
  declares \<^verbatim>\<open>TimerImplementation\<close>, \<^verbatim>\<open>SimpleArray\<close>, \<^verbatim>\<open>TimeoutInfo\<close> and
  \<^verbatim>\<open>StateDefinition\<close>.

  \<^item> \<^verbatim>\<open>uint8_t\<close> is an 8-bit word and \<^verbatim>\<open>unsigned long\<close> a 32-bit word (its width on
    AVR, ESP and RP2040 alike); \<^verbatim>\<open>size_t\<close> indices and sizes are natural numbers, and the
    places where the code narrows one to \<^verbatim>\<open>uint8_t\<close> are written out.
  \<^item> A function pointer is \<^verbatim>\<open>nullptr\<close> or the address of a function; two pointers are
    equal when they are the same address.
  \<^item> The bodies of callbacks are application code. The engine's behaviour at a call
    through a function pointer is the call itself with its arguments, recorded as an
    event; every operation returns the events it caused, in order. What a callback body
    does to the machine in turn (a nested \<^verbatim>\<open>setState\<close>, say) is not part of these
    definitions, with one exception: the specification leaves the interleaving of nested
    calls open (4.4 and 9), and the properties below are about calls whose callbacks do
    not call back into the machine; for \<^verbatim>\<open>update\<close>, whose dispatch may trigger a
    transition (4.6), \<open>update_app\<close> adds the \<^verbatim>\<open>setState\<close> calls of the callback bodies.
  \<^item> \<^verbatim>\<open>millis()\<close> is the argument \<open>now\<close> of the operations that read the clock.
  \<^item> The preprocessor branches are selected by a value of type \<open>platform\<close>.
  \<^item> \<^verbatim>\<open>Serial\<close> output under \<^verbatim>\<open>debugEnabled\<close> is not recorded.
\<close>

subsection \<open>Data model\<close>

type_synonym uint8_t = "8 word"
type_synonym unsigned_long = "32 word"

text \<open>A function pointer: \<^verbatim>\<open>nullptr\<close>, or the address of a function.\<close>

datatype fnptr = nullptr | Fn nat

text \<open>
  \<open>ESP\<close>: \<^verbatim>\<open>ESP8266 || ESP32\<close> (Ticker, \<^verbatim>\<open>std::vector\<close>); \<open>RP2040\<close>:
  \<^verbatim>\<open>ARDUINO_ARCH_RP2040\<close> (polling timer, \<^verbatim>\<open>std::vector\<close>); \<open>AVR\<close>: every other board
  (polling timer, \<^verbatim>\<open>SimpleArray\<close>).
\<close>

datatype platform = ESP | RP2040 | AVR

text \<open>
  The two functions the engine ever hands to \<^verbatim>\<open>once_ms\<close>: \<^verbatim>\<open>nullptr\<close> (polling branch
  of \<^verbatim>\<open>setState\<close>) and the lambda that captures \<^verbatim>\<open>state\<close> and \<^verbatim>\<open>index\<close> and calls
  \<^verbatim>\<open>onTimeoutStatic(state, index)\<close> (Ticker branch).
\<close>

datatype timer_fn = NullFn | OnTimeoutLambda uint8_t nat

text \<open>
  What an operation does to the world outside the machine's fields, in order: calls through
  the three function-pointer types, and the calls of the timer's methods.
\<close>

datatype event =
    GlobalCall fnptr uint8_t uint8_t
  | StateCall fnptr uint8_t uint8_t
  | FunctionCall fnptr uint8_t
  | TimerDetach uint8_t nat
  | TimerOnceMs uint8_t nat unsigned_long timer_fn
  | TimerFnCall timer_fn

text \<open>Reading \<^verbatim>\<open>states[s]\<close> with \<^verbatim>\<open>s >= numStates\<close> is undefined behaviour.\<close>

datatype fault = OutOfBounds

text \<open>
  \<^verbatim>\<open>class TimerImplementation\<close>, the polling timer of the header. The constructor sets
  \<^verbatim>\<open>active\<close> and \<^verbatim>\<open>callback\<close> only; the two other fields are indeterminate until
  \<^verbatim>\<open>once_ms\<close> and are 0 here.
\<close>

record TimerImplementation =
  t_startTime :: unsigned_long
  t_duration :: unsigned_long
  t_active :: bool
  t_callback :: timer_fn

record TimeoutInfo =
  duration :: unsigned_long
  callback :: fnptr
  timer :: TimerImplementation
  active :: bool
  stateIndex :: uint8_t
  timeoutIndex :: uint8_t

record StateDefinition =
  timeouts :: "TimeoutInfo list"
  onEnters :: "fnptr list"
  onStates :: "fnptr list"
  onExits :: "fnptr list"

record EventStateMachine =
  currentState :: uint8_t
  previousState :: uint8_t
  stateChanged :: bool
  states :: "StateDefinition list"
  numStates :: uint8_t
  stateEnteredTime :: unsigned_long
  debugEnabled :: bool
  beforeStateChangeHandlers :: "fnptr list"
  afterStateChangeHandlers :: "fnptr list"

subsection \<open>Timer\<close>

definition TimerImplementation_new :: TimerImplementation where
  "TimerImplementation_new =
     \<lparr>t_startTime = 0, t_duration = 0, t_active = False, t_callback = NullFn\<rparr>"

text \<open>
  Modelled from the spec: the \<^verbatim>\<open>Ticker\<close> of the ESP platform library, which
  \<^verbatim>\<open>TimerImplementation\<close> is a synonym of on \<open>ESP\<close> and which is not part of the
  repository. By the contract of 4.1 (arm with a duration and a function, cancel, query
  active) its \<^verbatim>\<open>once_ms\<close> and \<^verbatim>\<open>detach\<close> are those of the polling timer below; when it
  fires is not modelled, what its fire calls is \<open>onTimeoutStatic\<close>.
\<close>

definition once_ms :: "unsigned_long \<Rightarrow> unsigned_long \<Rightarrow> timer_fn \<Rightarrow> TimerImplementation
    \<Rightarrow> TimerImplementation" where
  "once_ms now ms func t =
     t\<lparr>t_startTime := now, t_duration := ms, t_callback := func, t_active := True\<rparr>"

definition detach :: "TimerImplementation \<Rightarrow> TimerImplementation" where
  "detach t = t\<lparr>t_active := False\<rparr>"

text \<open>
  \<^verbatim>\<open>TimerImplementation::update\<close>: the result, the timer afterwards, and the callback it
  called, if any. The subtraction is that of \<^verbatim>\<open>unsigned long\<close>.
\<close>

definition TimerImplementation_update :: "unsigned_long \<Rightarrow> TimerImplementation
    \<Rightarrow> bool \<times> TimerImplementation \<times> timer_fn option" where
  "TimerImplementation_update now t =
     (if t_active t \<and> now - t_startTime t \<ge> t_duration t then
        (if t_callback t \<noteq> NullFn
         then (True, t\<lparr>t_active := False\<rparr>, Some (t_callback t))
         else (False, t\<lparr>t_active := False\<rparr>, None))
      else (False, t, None))"

definition isActive :: "TimerImplementation \<Rightarrow> bool" where
  "isActive t = t_active t"

subsection \<open>Containers\<close>

text \<open>
  \<^verbatim>\<open>CallbackContainer\<close> is \<^verbatim>\<open>std::vector\<close> on \<open>ESP\<close> and \<open>RP2040\<close> and
  \<^verbatim>\<open>SimpleArray<T, 8>\<close> on \<open>AVR\<close>, whose \<^verbatim>\<open>push_back\<close> stores nothing once
  \<^verbatim>\<open>count\<close> has reached \<^verbatim>\<open>MAX_SIZE\<close>. Its boolean result is dropped by every caller.
\<close>

definition MAX_SIZE :: nat where
  "MAX_SIZE = 8"

definition push_back :: "platform \<Rightarrow> 'a list \<Rightarrow> 'a \<Rightarrow> 'a list" where
  "push_back p xs x = (if p = AVR \<and> \<not> length xs < MAX_SIZE then xs else xs @ [x])"

text \<open>
  \<^verbatim>\<open>erase(begin() + i)\<close> and \<^verbatim>\<open>SimpleArray::erase(&items[i])\<close>: the later elements
  move down by one; an index beyond the size erases nothing.
\<close>

definition erase :: "'a list \<Rightarrow> nat \<Rightarrow> 'a list" where
  "erase xs i = (if i < length xs then take i xs @ drop (Suc i) xs else xs)"

text \<open>
  The scan \<^verbatim>\<open>for (size_t i = 0; i < c.size(); i++) if (match(c[i])) ...\<close>: the first
  index at or after \<open>i\<close> whose element matches.
\<close>

fun first_match :: "('a \<Rightarrow> bool) \<Rightarrow> 'a list \<Rightarrow> nat \<Rightarrow> nat option" where
  "first_match P [] i = None"
| "first_match P (x # xs) i = (if P x then Some i else first_match P xs (Suc i))"

subsection \<open>Construction and validity\<close>

definition StateDefinition_new :: StateDefinition where
  "StateDefinition_new = \<lparr>timeouts = [], onEnters = [], onStates = [], onExits = []\<rparr>"

definition isValidState :: "EventStateMachine \<Rightarrow> uint8_t \<Rightarrow> bool" where
  "isValidState m state = (state < numStates m)"

text \<open>
  The constructor. \<^verbatim>\<open>new StateDefinition[numStates]\<close> with \<^verbatim>\<open>numStates == 0\<close> is a
  valid allocation of no element; there is no check of the argument.
\<close>

definition EventStateMachine_new :: "unsigned_long \<Rightarrow> uint8_t \<Rightarrow> EventStateMachine" where
  "EventStateMachine_new now numberOfStates =
     \<lparr>currentState = 0, previousState = 0, stateChanged = True,
      states = replicate (unat numberOfStates) StateDefinition_new,
      numStates = numberOfStates, stateEnteredTime = now, debugEnabled = False,
      beforeStateChangeHandlers = [], afterStateChangeHandlers = []\<rparr>"

definition setDebug :: "bool \<Rightarrow> EventStateMachine \<Rightarrow> EventStateMachine" where
  "setDebug enable m = m\<lparr>debugEnabled := enable\<rparr>"

text \<open>\<^verbatim>\<open>states[s]\<close> and an assignment through \<^verbatim>\<open>states[s]\<close>.\<close>

definition state_at :: "EventStateMachine \<Rightarrow> uint8_t \<Rightarrow> StateDefinition" where
  "state_at m s = states m ! unat s"

definition map_state :: "uint8_t \<Rightarrow> (StateDefinition \<Rightarrow> StateDefinition)
    \<Rightarrow> EventStateMachine \<Rightarrow> EventStateMachine" where
  "map_state s f m = m\<lparr>states := (states m)[unat s := f (states m ! unat s)]\<rparr>"

text \<open>An assignment through \<^verbatim>\<open>states[s].timeouts[i]\<close>.\<close>

definition map_timeout :: "uint8_t \<Rightarrow> nat \<Rightarrow> (TimeoutInfo \<Rightarrow> TimeoutInfo)
    \<Rightarrow> EventStateMachine \<Rightarrow> EventStateMachine" where
  "map_timeout s i f m =
     map_state s (\<lambda>sd. sd\<lparr>timeouts := (timeouts sd)[i := f (timeouts sd ! i)]\<rparr>) m"

subsection \<open>Registration\<close>

definition addTimeout :: "platform \<Rightarrow> uint8_t \<Rightarrow> unsigned_long \<Rightarrow> fnptr
    \<Rightarrow> EventStateMachine \<Rightarrow> bool \<times> EventStateMachine" where
  "addTimeout p state timeout onTimeout m =
     (if \<not> isValidState m state \<or> onTimeout = nullptr then (False, m)
      else
        let timeoutInfo =
              \<lparr>duration = timeout, callback = onTimeout, timer = TimerImplementation_new,
               active = False,
               stateIndex = (if p = ESP then 0 else state),
               timeoutIndex =
                 (if p = ESP then 0 else of_nat (length (timeouts (state_at m state))))\<rparr>
        in (True, map_state state
                    (\<lambda>sd. sd\<lparr>timeouts := push_back p (timeouts sd) timeoutInfo\<rparr>) m))"

definition addOnEnter :: "platform \<Rightarrow> uint8_t \<Rightarrow> fnptr \<Rightarrow> EventStateMachine
    \<Rightarrow> bool \<times> EventStateMachine" where
  "addOnEnter p state onEnter m =
     (if \<not> isValidState m state \<or> onEnter = nullptr then (False, m)
      else (True, map_state state (\<lambda>sd. sd\<lparr>onEnters := push_back p (onEnters sd) onEnter\<rparr>) m))"

definition addOnState :: "platform \<Rightarrow> uint8_t \<Rightarrow> fnptr \<Rightarrow> EventStateMachine
    \<Rightarrow> bool \<times> EventStateMachine" where
  "addOnState p state onState m =
     (if \<not> isValidState m state \<or> onState = nullptr then (False, m)
      else (True, map_state state (\<lambda>sd. sd\<lparr>onStates := push_back p (onStates sd) onState\<rparr>) m))"

definition addOnExit :: "platform \<Rightarrow> uint8_t \<Rightarrow> fnptr \<Rightarrow> EventStateMachine
    \<Rightarrow> bool \<times> EventStateMachine" where
  "addOnExit p state onExit m =
     (if \<not> isValidState m state \<or> onExit = nullptr then (False, m)
      else (True, map_state state (\<lambda>sd. sd\<lparr>onExits := push_back p (onExits sd) onExit\<rparr>) m))"

text \<open>\<^verbatim>\<open>configureState\<close> drops the results of the four operations it calls.\<close>

definition configureState :: "platform \<Rightarrow> uint8_t \<Rightarrow> unsigned_long \<Rightarrow> fnptr \<Rightarrow> fnptr \<Rightarrow> fnptr
    \<Rightarrow> fnptr \<Rightarrow> EventStateMachine \<Rightarrow> EventStateMachine" where
  "configureState p state timeout onEnter onState onExit onTimeout m =
     (if \<not> isValidState m state then m
      else
        let m1 = (if onEnter \<noteq> nullptr then snd (addOnEnter p state onEnter m) else m);
            m2 = (if onState \<noteq> nullptr then snd (addOnState p state onState m1) else m1);
            m3 = (if onExit \<noteq> nullptr then snd (addOnExit p state onExit m2) else m2)
        in if timeout > 0 \<and> onTimeout \<noteq> nullptr
           then snd (addTimeout p state timeout onTimeout m3) else m3)"

subsection \<open>Removal\<close>

text \<open>
  \<^verbatim>\<open>removeTimeout\<close> detaches the timer of the entry it found and clears its flag, then
  erases the entry.
\<close>

definition removeTimeout :: "uint8_t \<Rightarrow> unsigned_long \<Rightarrow> EventStateMachine
    \<Rightarrow> bool \<times> EventStateMachine \<times> event list" where
  "removeTimeout state timeout m =
     (if \<not> isValidState m state then (False, m, [])
      else
        case first_match (\<lambda>ti. duration ti = timeout) (timeouts (state_at m state)) 0 of
          None \<Rightarrow> (False, m, [])
        | Some i \<Rightarrow>
            let m1 = map_timeout state i
                       (\<lambda>timeoutInfo. timeoutInfo\<lparr>timer := detach (timer timeoutInfo),
                                                   active := False\<rparr>) m;
                m2 = map_state state (\<lambda>sd. sd\<lparr>timeouts := erase (timeouts sd) i\<rparr>) m1
            in (True, m2, [TimerDetach state i]))"

definition removeOnEnter :: "uint8_t \<Rightarrow> fnptr \<Rightarrow> EventStateMachine
    \<Rightarrow> bool \<times> EventStateMachine" where
  "removeOnEnter state onEnter m =
     (if \<not> isValidState m state then (False, m)
      else
        case first_match (\<lambda>c. c = onEnter) (onEnters (state_at m state)) 0 of
          None \<Rightarrow> (False, m)
        | Some i \<Rightarrow> (True, map_state state (\<lambda>sd. sd\<lparr>onEnters := erase (onEnters sd) i\<rparr>) m))"

definition removeOnState :: "uint8_t \<Rightarrow> fnptr \<Rightarrow> EventStateMachine
    \<Rightarrow> bool \<times> EventStateMachine" where
  "removeOnState state onState m =
     (if \<not> isValidState m state then (False, m)
      else
        case first_match (\<lambda>c. c = onState) (onStates (state_at m state)) 0 of
          None \<Rightarrow> (False, m)
        | Some i \<Rightarrow> (True, map_state state (\<lambda>sd. sd\<lparr>onStates := erase (onStates sd) i\<rparr>) m))"

definition removeOnExit :: "uint8_t \<Rightarrow> fnptr \<Rightarrow> EventStateMachine
    \<Rightarrow> bool \<times> EventStateMachine" where
  "removeOnExit state onExit m =
     (if \<not> isValidState m state then (False, m)
      else
        case first_match (\<lambda>c. c = onExit) (onExits (state_at m state)) 0 of
          None \<Rightarrow> (False, m)
        | Some i \<Rightarrow> (True, map_state state (\<lambda>sd. sd\<lparr>onExits := erase (onExits sd) i\<rparr>) m))"

subsection \<open>Global handlers\<close>

definition addBeforeStateChangeHandler :: "platform \<Rightarrow> fnptr \<Rightarrow> EventStateMachine
    \<Rightarrow> EventStateMachine" where
  "addBeforeStateChangeHandler p handler m =
     (if handler \<noteq> nullptr
      then m\<lparr>beforeStateChangeHandlers := push_back p (beforeStateChangeHandlers m) handler\<rparr>
      else m)"

definition addAfterStateChangeHandler :: "platform \<Rightarrow> fnptr \<Rightarrow> EventStateMachine
    \<Rightarrow> EventStateMachine" where
  "addAfterStateChangeHandler p handler m =
     (if handler \<noteq> nullptr
      then m\<lparr>afterStateChangeHandlers := push_back p (afterStateChangeHandlers m) handler\<rparr>
      else m)"

definition removeBeforeStateChangeHandler :: "fnptr \<Rightarrow> EventStateMachine
    \<Rightarrow> bool \<times> EventStateMachine" where
  "removeBeforeStateChangeHandler handler m =
     (case first_match (\<lambda>c. c = handler) (beforeStateChangeHandlers m) 0 of
        None \<Rightarrow> (False, m)
      | Some i \<Rightarrow>
          (True, m\<lparr>beforeStateChangeHandlers := erase (beforeStateChangeHandlers m) i\<rparr>))"

definition removeAfterStateChangeHandler :: "fnptr \<Rightarrow> EventStateMachine
    \<Rightarrow> bool \<times> EventStateMachine" where
  "removeAfterStateChangeHandler handler m =
     (case first_match (\<lambda>c. c = handler) (afterStateChangeHandlers m) 0 of
        None \<Rightarrow> (False, m)
      | Some i \<Rightarrow>
          (True, m\<lparr>afterStateChangeHandlers := erase (afterStateChangeHandlers m) i\<rparr>))"

subsection \<open>Timeout dispatch\<close>

text \<open>
  \<^verbatim>\<open>onTimeout\<close>. The bounds check reads \<^verbatim>\<open>states[state]\<close> only when
  \<^verbatim>\<open>currentState == state\<close>, by the short circuit of \<^verbatim>\<open>&&\<close>.
\<close>

definition onTimeout :: "uint8_t \<Rightarrow> uint8_t \<Rightarrow> EventStateMachine
    \<Rightarrow> fault + EventStateMachine \<times> event list" where
  "onTimeout state index m =
     (if currentState m \<noteq> state then Inr (m, [])
      else if \<not> state < numStates m then Inl OutOfBounds
      else if \<not> unat index < length (timeouts (state_at m state)) then Inr (m, [])
      else
        let i = unat index;
            m1 = map_timeout state i (\<lambda>timeoutInfo. timeoutInfo\<lparr>active := False\<rparr>) m
        in Inr (m1, [StateCall (callback (timeouts (state_at m1 state) ! i))
                       (currentState m1) (previousState m1)]))"

text \<open>
  \<^verbatim>\<open>onTimeoutStatic\<close>, with \<^verbatim>\<open>instance\<close> the machine at hand, as the constructor
  sets it.
\<close>

definition onTimeoutStatic :: "uint8_t \<Rightarrow> uint8_t \<Rightarrow> EventStateMachine
    \<Rightarrow> fault + EventStateMachine \<times> event list" where
  "onTimeoutStatic state index m = onTimeout state index m"

subsection \<open>Transition\<close>

text \<open>The body of the loop that stops the timers of the state being left.\<close>

definition cancel_timeout :: "TimeoutInfo \<Rightarrow> TimeoutInfo" where
  "cancel_timeout timeoutInfo = timeoutInfo\<lparr>timer := detach (timer timeoutInfo), active := False\<rparr>"

text \<open>
  The body of the loop that arms the timeouts of the state entered, for the entry at
  index \<open>i\<close>: the Ticker branch hands the timer the lambda, the polling branch records
  state and index in the entry and hands the timer \<^verbatim>\<open>nullptr\<close>.
\<close>

definition arm_fn :: "platform \<Rightarrow> uint8_t \<Rightarrow> nat \<Rightarrow> timer_fn" where
  "arm_fn p s i = (if p = ESP then OnTimeoutLambda s i else NullFn)"

definition arm_timeout :: "platform \<Rightarrow> unsigned_long \<Rightarrow> uint8_t \<Rightarrow> nat \<Rightarrow> TimeoutInfo
    \<Rightarrow> TimeoutInfo" where
  "arm_timeout p now s i timeoutInfo =
     (if p = ESP
      then timeoutInfo\<lparr>active := True,
             timer := once_ms now (duration timeoutInfo) (arm_fn p s i) (timer timeoutInfo)\<rparr>
      else timeoutInfo\<lparr>stateIndex := s, timeoutIndex := of_nat i, active := True,
             timer := once_ms now (duration timeoutInfo) (arm_fn p s i) (timer timeoutInfo)\<rparr>)"

fun arm_timeouts :: "platform \<Rightarrow> unsigned_long \<Rightarrow> uint8_t \<Rightarrow> nat \<Rightarrow> TimeoutInfo list
    \<Rightarrow> TimeoutInfo list" where
  "arm_timeouts p now s i [] = []"
| "arm_timeouts p now s i (timeoutInfo # rest) =
     arm_timeout p now s i timeoutInfo # arm_timeouts p now s (Suc i) rest"

fun arm_events :: "platform \<Rightarrow> uint8_t \<Rightarrow> nat \<Rightarrow> TimeoutInfo list \<Rightarrow> event list" where
  "arm_events p s i [] = []"
| "arm_events p s i (timeoutInfo # rest) =
     TimerOnceMs s i (duration timeoutInfo) (arm_fn p s i) # arm_events p s (Suc i) rest"

text \<open>
  \<^verbatim>\<open>setState\<close>. Each \<open>m\<close>\<open>k\<close> is the machine after a block of the source, each
  \<open>ev\<close>\<open>k\<close> the events of a loop; fields are read where the source reads them.
  \<^verbatim>\<open>states[currentState]\<close> is first read by the loop that stops the timers.
\<close>

definition setState :: "platform \<Rightarrow> unsigned_long \<Rightarrow> uint8_t \<Rightarrow> EventStateMachine
    \<Rightarrow> fault + EventStateMachine \<times> event list" where
  "setState p now newState m =
     (if \<not> isValidState m newState then Inr (m, [])
      else if newState = currentState m then Inr (m, [])
      else if \<not> currentState m < numStates m then Inl OutOfBounds
      else
        let ev1 = map (\<lambda>h. GlobalCall h (currentState m) newState) (beforeStateChangeHandlers m);
            ev2 = map (TimerDetach (currentState m))
                    [0..<length (timeouts (state_at m (currentState m)))];
            m1 = map_state (currentState m)
                   (\<lambda>sd. sd\<lparr>timeouts := map cancel_timeout (timeouts sd)\<rparr>) m;
            ev3 = map (\<lambda>c. StateCall c (currentState m1) newState)
                    (onExits (state_at m1 (currentState m1)));
            m2 = m1\<lparr>previousState := currentState m1, currentState := newState,
                    stateEnteredTime := now, stateChanged := True\<rparr>;
            ev4 = map (\<lambda>c. StateCall c (currentState m2) (previousState m2))
                    (onEnters (state_at m2 (currentState m2)));
            ev5 = arm_events p (currentState m2) 0 (timeouts (state_at m2 (currentState m2)));
            m3 = map_state (currentState m2)
                   (\<lambda>sd. sd\<lparr>timeouts := arm_timeouts p now (currentState m2) 0 (timeouts sd)\<rparr>) m2;
            ev6 = map (\<lambda>h. GlobalCall h (previousState m3) (currentState m3))
                    (afterStateChangeHandlers m3)
        in Inr (m3, ev1 @ ev2 @ ev3 @ ev4 @ ev5 @ ev6))"

subsection \<open>Update\<close>

text \<open>
  The body of the polling loop of \<^verbatim>\<open>update\<close> at index \<open>i\<close>. \<^verbatim>\<open>timer.update()\<close> runs
  only when \<^verbatim>\<open>timeoutInfo.active\<close> holds, and changes the timer whatever it returns. The
  index handed to \<^verbatim>\<open>onTimeout\<close> is narrowed from \<^verbatim>\<open>size_t\<close> to \<^verbatim>\<open>uint8_t\<close>.
\<close>

definition poll_timeout :: "unsigned_long \<Rightarrow> nat \<Rightarrow> EventStateMachine
    \<Rightarrow> fault + EventStateMachine \<times> event list" where
  "poll_timeout now i m =
     (let s = currentState m; timeoutInfo = timeouts (state_at m s) ! i in
      if \<not> active timeoutInfo then Inr (m, [])
      else
        case TimerImplementation_update now (timer timeoutInfo) of
          (fired, t', called) \<Rightarrow>
            let m1 = map_timeout s i (\<lambda>timeoutInfo. timeoutInfo\<lparr>timer := t'\<rparr>) m;
                ev1 = (case called of None \<Rightarrow> [] | Some f \<Rightarrow> [TimerFnCall f])
            in if fired
               then (case onTimeout s (of_nat i) m1 of
                       Inl e \<Rightarrow> Inl e
                     | Inr (m2, ev2) \<Rightarrow> Inr (m2, ev1 @ ev2))
               else Inr (m1, ev1))"

text \<open>
  The polling loop from index \<open>i\<close> on; the size is read anew at each turn, as the source
  does.
\<close>

function poll_timeouts :: "unsigned_long \<Rightarrow> nat \<Rightarrow> EventStateMachine
    \<Rightarrow> fault + EventStateMachine \<times> event list" where
  "poll_timeouts now i m =
     (if i < length (timeouts (state_at m (currentState m)))
      then (case poll_timeout now i m of
              Inl e \<Rightarrow> Inl e
            | Inr (m1, ev1) \<Rightarrow>
                (case poll_timeouts now (Suc i) m1 of
                   Inl e \<Rightarrow> Inl e
                 | Inr (m2, ev2) \<Rightarrow> Inr (m2, ev1 @ ev2)))
      else Inr (m, []))"
  by pat_completeness auto

text \<open>
  \<^verbatim>\<open>update\<close>. Both loops read \<^verbatim>\<open>states[currentState]\<close>; the polling loop is compiled
  on every platform but \<open>ESP\<close>.
\<close>

definition update :: "platform \<Rightarrow> unsigned_long \<Rightarrow> EventStateMachine
    \<Rightarrow> fault + EventStateMachine \<times> event list" where
  "update p now m =
     (if \<not> currentState m < numStates m then Inl OutOfBounds
      else
        case (if p = ESP then Inr (m, []) else poll_timeouts now 0 m) of
          Inl e \<Rightarrow> Inl e
        | Inr (m1, ev1) \<Rightarrow>
            let ev2 = map (\<lambda>f. FunctionCall f (currentState m1))
                        (onStates (state_at m1 (currentState m1)))
            in Inr (m1\<lparr>stateChanged := False\<rparr>, ev1 @ ev2))"

subsection \<open>Update with callbacks that change the state\<close>

text \<open>
  The callbacks that \<^verbatim>\<open>update\<close> runs (the timeout callbacks, through \<^verbatim>\<open>onTimeout\<close>, and
  the during-state callbacks) may call \<^verbatim>\<open>setState\<close>, as the timeout callbacks of the
  example sketches do. The definitions of this subsection are those of \<^verbatim>\<open>onTimeout\<close> and
  \<^verbatim>\<open>update\<close> again, with an \<open>application\<close> that says which \<^verbatim>\<open>setState\<close> calls the body
  of each function makes. The calls made by those nested \<^verbatim>\<open>setState\<close> calls are events.
  With bodies that make no call, \<open>update_app\<close> is \<open>update\<close>.
\<close>

text \<open>
  What the body of an application function does to the machine, as far as transitions go:
  for a call of the function (the event), the states the body passes to \<^verbatim>\<open>setState\<close>,
  in order. A body that makes no such call is the empty list.
\<close>

type_synonym application = "event \<Rightarrow> uint8_t list"

text \<open>The \<^verbatim>\<open>setState\<close> calls of a body, one after the other.\<close>

fun set_states :: "platform \<Rightarrow> unsigned_long \<Rightarrow> uint8_t list \<Rightarrow> EventStateMachine
    \<Rightarrow> fault + EventStateMachine \<times> event list" where
  "set_states p now [] m = Inr (m, [])"
| "set_states p now (s # rest) m =
     (case setState p now s m of
        Inl e \<Rightarrow> Inl e
      | Inr (m1, ev1) \<Rightarrow>
          (case set_states p now rest m1 of
             Inl e \<Rightarrow> Inl e
           | Inr (m2, ev2) \<Rightarrow> Inr (m2, ev1 @ ev2)))"

text \<open>A call through a function pointer: the call, then what the body does.\<close>

definition call_back :: "application \<Rightarrow> platform \<Rightarrow> unsigned_long \<Rightarrow> event
    \<Rightarrow> EventStateMachine \<Rightarrow> fault + EventStateMachine \<times> event list" where
  "call_back app p now e m =
     (case set_states p now (app e) m of
        Inl f \<Rightarrow> Inl f
      | Inr (m1, ev1) \<Rightarrow> Inr (m1, e # ev1))"

text \<open>
  \<^verbatim>\<open>onTimeout\<close> as above, with the body of the callback it calls: the flag of the entry is
  cleared before the call.
\<close>

definition onTimeout_app :: "application \<Rightarrow> platform \<Rightarrow> unsigned_long \<Rightarrow> uint8_t \<Rightarrow> uint8_t
    \<Rightarrow> EventStateMachine \<Rightarrow> fault + EventStateMachine \<times> event list" where
  "onTimeout_app app p now state index m =
     (if currentState m \<noteq> state then Inr (m, [])
      else if \<not> state < numStates m then Inl OutOfBounds
      else if \<not> unat index < length (timeouts (state_at m state)) then Inr (m, [])
      else
        let i = unat index;
            m1 = map_timeout state i (\<lambda>timeoutInfo. timeoutInfo\<lparr>active := False\<rparr>) m
        in call_back app p now
             (StateCall (callback (timeouts (state_at m1 state) ! i))
                (currentState m1) (previousState m1)) m1)"

text \<open>
  The two loops of \<^verbatim>\<open>update\<close>. Each turn reads \<^verbatim>\<open>currentState\<close> and the size of the list
  anew, so after a callback has changed the state the loop goes on, at the next index, in
  the list of the new state.
\<close>

definition poll_timeout_app :: "application \<Rightarrow> platform \<Rightarrow> unsigned_long \<Rightarrow> nat
    \<Rightarrow> EventStateMachine \<Rightarrow> fault + EventStateMachine \<times> event list" where
  "poll_timeout_app app p now i m =
     (let s = currentState m; timeoutInfo = timeouts (state_at m s) ! i in
      if \<not> active timeoutInfo then Inr (m, [])
      else
        case TimerImplementation_update now (timer timeoutInfo) of
          (fired, t', called) \<Rightarrow>
            let m1 = map_timeout s i (\<lambda>timeoutInfo. timeoutInfo\<lparr>timer := t'\<rparr>) m;
                ev1 = (case called of None \<Rightarrow> [] | Some f \<Rightarrow> [TimerFnCall f])
            in if fired
               then (case onTimeout_app app p now s (of_nat i) m1 of
                       Inl e \<Rightarrow> Inl e
                     | Inr (m2, ev2) \<Rightarrow> Inr (m2, ev1 @ ev2))
               else Inr (m1, ev1))"

function poll_timeouts_app :: "application \<Rightarrow> platform \<Rightarrow> unsigned_long \<Rightarrow> nat
    \<Rightarrow> EventStateMachine \<Rightarrow> fault + EventStateMachine \<times> event list" where
  "poll_timeouts_app app p now i m =
     (if i < length (timeouts (state_at m (currentState m)))
      then (case poll_timeout_app app p now i m of
              Inl e \<Rightarrow> Inl e
            | Inr (m1, ev1) \<Rightarrow>
                (case poll_timeouts_app app p now (Suc i) m1 of
                   Inl e \<Rightarrow> Inl e
                 | Inr (m2, ev2) \<Rightarrow> Inr (m2, ev1 @ ev2)))
      else Inr (m, []))"
  by pat_completeness auto

function onState_loop :: "application \<Rightarrow> platform \<Rightarrow> unsigned_long \<Rightarrow> nat
    \<Rightarrow> EventStateMachine \<Rightarrow> fault + EventStateMachine \<times> event list" where
  "onState_loop app p now i m =
     (if i < length (onStates (state_at m (currentState m)))
      then (case call_back app p now
                   (FunctionCall (onStates (state_at m (currentState m)) ! i) (currentState m)) m of
              Inl e \<Rightarrow> Inl e
            | Inr (m1, ev1) \<Rightarrow>
                (case onState_loop app p now (Suc i) m1 of
                   Inl e \<Rightarrow> Inl e
                 | Inr (m2, ev2) \<Rightarrow> Inr (m2, ev1 @ ev2)))
      else Inr (m, []))"
  by pat_completeness auto

text \<open>
  \<^verbatim>\<open>update\<close> with the bodies of the callbacks it runs: \<^verbatim>\<open>stateChanged = false\<close> is its
  last statement, after both loops.
\<close>

definition update_app :: "application \<Rightarrow> platform \<Rightarrow> unsigned_long \<Rightarrow> EventStateMachine
    \<Rightarrow> fault + EventStateMachine \<times> event list" where
  "update_app app p now m =
     (if \<not> currentState m < numStates m then Inl OutOfBounds
      else
        case (if p = ESP then Inr (m, []) else poll_timeouts_app app p now 0 m) of
          Inl e \<Rightarrow> Inl e
        | Inr (m1, ev1) \<Rightarrow>
            (case onState_loop app p now 0 m1 of
               Inl e \<Rightarrow> Inl e
             | Inr (m2, ev2) \<Rightarrow> Inr (m2\<lparr>stateChanged := False\<rparr>, ev1 @ ev2)))"

subsection \<open>Accessors\<close>




definition timeInCurrentState :: "unsigned_long \<Rightarrow> EventStateMachine \<Rightarrow> unsigned_long" where
  "timeInCurrentState now m = now - stateEnteredTime m"

subsection \<open>The public interface as calls\<close>

text \<open>
  A call of a public member function, and its effect on the machine. \<open>exec\<close> drops the
  boolean results; \<open>run\<close> performs a sequence of calls, each at its own clock reading,
  and stops at the first fault.
\<close>

datatype call =
    ConfigureState uint8_t unsigned_long fnptr fnptr fnptr fnptr
  | AddTimeout uint8_t unsigned_long fnptr
  | AddOnEnter uint8_t fnptr
  | AddOnState uint8_t fnptr
  | AddOnExit uint8_t fnptr
  | RemoveTimeout uint8_t unsigned_long
  | RemoveOnEnter uint8_t fnptr
  | RemoveOnState uint8_t fnptr
  | RemoveOnExit uint8_t fnptr
  | AddBeforeStateChangeHandler fnptr
  | AddAfterStateChangeHandler fnptr
  | RemoveBeforeStateChangeHandler fnptr
  | RemoveAfterStateChangeHandler fnptr
  | OnTimeout uint8_t uint8_t
  | SetState uint8_t
  | Update
  | SetDebug bool

fun exec :: "platform \<Rightarrow> unsigned_long \<Rightarrow> call \<Rightarrow> EventStateMachine
    \<Rightarrow> fault + EventStateMachine \<times> event list" where
  "exec p now (ConfigureState s t a b c d) m = Inr (configureState p s t a b c d m, [])"
| "exec p now (AddTimeout s t c) m = Inr (snd (addTimeout p s t c m), [])"
| "exec p now (AddOnEnter s c) m = Inr (snd (addOnEnter p s c m), [])"
| "exec p now (AddOnState s c) m = Inr (snd (addOnState p s c m), [])"
| "exec p now (AddOnExit s c) m = Inr (snd (addOnExit p s c m), [])"
| "exec p now (RemoveTimeout s t) m = Inr (snd (removeTimeout s t m))"
| "exec p now (RemoveOnEnter s c) m = Inr (snd (removeOnEnter s c m), [])"
| "exec p now (RemoveOnState s c) m = Inr (snd (removeOnState s c m), [])"
| "exec p now (RemoveOnExit s c) m = Inr (snd (removeOnExit s c m), [])"
| "exec p now (AddBeforeStateChangeHandler h) m = Inr (addBeforeStateChangeHandler p h m, [])"
| "exec p now (AddAfterStateChangeHandler h) m = Inr (addAfterStateChangeHandler p h m, [])"
| "exec p now (RemoveBeforeStateChangeHandler h) m =
     Inr (snd (removeBeforeStateChangeHandler h m), [])"
| "exec p now (RemoveAfterStateChangeHandler h) m =
     Inr (snd (removeAfterStateChangeHandler h m), [])"
| "exec p now (OnTimeout s i) m = onTimeout s i m"
| "exec p now (SetState s) m = setState p now s m"
| "exec p now Update m = update p now m"
| "exec p now (SetDebug b) m = Inr (setDebug b m, [])"

fun run :: "platform \<Rightarrow> (unsigned_long \<times> call) list \<Rightarrow> EventStateMachine
    \<Rightarrow> fault + EventStateMachine \<times> event list" where
  "run p [] m = Inr (m, [])"
| "run p ((now, c) # cs) m =
     (case exec p now c m of
        Inl e \<Rightarrow> Inl e
      | Inr (m1, ev1) \<Rightarrow>
          (case run p cs m1 of
             Inl e \<Rightarrow> Inl e
           | Inr (m2, ev2) \<Rightarrow> Inr (m2, ev1 @ ev2)))"

subsection \<open>Machines as the constructor and the operations leave them\<close>

text \<open>
  The array \<^verbatim>\<open>states\<close> has \<^verbatim>\<open>numStates\<close> elements, and both state ids are below
  \<^verbatim>\<open>numStates\<close>.
\<close>

definition well_formed :: "EventStateMachine \<Rightarrow> bool" where
  "well_formed m \<longleftrightarrow> length (states m) = unat (numStates m)"

definition ids_valid :: "EventStateMachine \<Rightarrow> bool" where
  "ids_valid m \<longleftrightarrow> currentState m < numStates m \<and> previousState m < numStates m"

text \<open>A call that changes the state: \<^verbatim>\<open>setState\<close> with a valid id other than the current one.\<close>

fun is_transition :: "EventStateMachine \<Rightarrow> call \<Rightarrow> bool" where
  "is_transition m (SetState s) = (isValidState m s \<and> s \<noteq> currentState m)"
| "is_transition m c = False"

subsection \<open>Removal as the specification words it\<close>

text \<open>
  4.2 of the specification: removal scans in order and removes the first entry equal to
  the given callback or duration; it does not remove duplicates. \<open>remove_first\<close> is
  that, for a test \<open>P\<close> on the entries, written without index or erase.
\<close>

fun remove_first :: "('a \<Rightarrow> bool) \<Rightarrow> 'a list \<Rightarrow> 'a list" where
  "remove_first P [] = []"
| "remove_first P (x # xs) = (if P x then xs else x # remove_first P xs)"

subsection \<open>Example machines\<close>

text \<open>
  A one-state machine on \<open>AVR\<close> after eight calls of \<^verbatim>\<open>addTimeout(0, 5, f)\<close>: the
  \<^verbatim>\<open>SimpleArray\<close> of its timeouts is full.
\<close>

definition full_machine :: EventStateMachine where
  "full_machine =
     snd (addTimeout AVR 0 5 (Fn 1) (snd (addTimeout AVR 0 5 (Fn 1)
    (snd (addTimeout AVR 0 5 (Fn 1) (snd (addTimeout AVR 0 5 (Fn 1)
    (snd (addTimeout AVR 0 5 (Fn 1) (snd (addTimeout AVR 0 5 (Fn 1)
    (snd (addTimeout AVR 0 5 (Fn 1) (snd (addTimeout AVR 0 5 (Fn 1)
       (EventStateMachine_new 0 1))))))))))))))))"

text \<open>
  A three-state machine on \<open>AVR\<close> as a sketch sets it up: a timeout and an exit
  callback on state 0, a before and an after handler, three timeouts (two of duration 100)
  and three enter callbacks (one registered twice) on state 1. \<open>entered_machine\<close> is
  that machine after \<^verbatim>\<open>setState(1)\<close> at clock reading 10.
\<close>

definition demo_machine :: EventStateMachine where
  "demo_machine =
     snd (addOnEnter AVR 1 (Fn 1) (snd (addOnEnter AVR 1 (Fn 2) (snd (addOnEnter AVR 1 (Fn 1)
    (snd (addTimeout AVR 1 100 (Fn 3) (snd (addTimeout AVR 1 50 (Fn 4)
    (snd (addTimeout AVR 1 100 (Fn 5)
    (addBeforeStateChangeHandler AVR (Fn 6) (addAfterStateChangeHandler AVR (Fn 7)
    (snd (addOnExit AVR 0 (Fn 8) (snd (addTimeout AVR 0 30 (Fn 9)
       (EventStateMachine_new 0 3))))))))))))))))))"

definition entered_machine :: EventStateMachine where
  "entered_machine =
     (case setState AVR 10 1 demo_machine of Inr (m, ev) \<Rightarrow> m | Inl e \<Rightarrow> demo_machine)"




section \<open>Properties\<close>

subsection \<open>The polling loop terminates\<close>

lemma currentState_map_state [simp]: "currentState (map_state s f m) = currentState m"
  by (simp add: map_state_def)

lemma currentState_map_timeout [simp]: "currentState (map_timeout s i f m) = currentState m"
  by (simp add: map_timeout_def)

lemma state_at_map_state:
  "state_at (map_state s f m) s' =
     (if s' = s \<and> unat s < length (states m) then f (state_at m s) else state_at m s')"
  by (auto simp: state_at_def map_state_def not_less list_update_beyond word_unat_eq_iff)

lemma length_timeouts_map_timeout [simp]:
  "length (timeouts (state_at (map_timeout s i f m) s')) = length (timeouts (state_at m s'))"
  by (simp add: map_timeout_def state_at_map_state)

lemma onTimeout_frame:
  assumes "onTimeout state index m = Inr (m', ev)"
  shows "currentState m' = currentState m"
    and "length (timeouts (state_at m' s)) = length (timeouts (state_at m s))"
  using assms by (auto simp: onTimeout_def Let_def split: if_splits)

lemma poll_timeout_frame:
  assumes "poll_timeout now i m = Inr (m', ev)"
  shows "currentState m' = currentState m"
    and "length (timeouts (state_at m' s)) = length (timeouts (state_at m s))"
  using assms onTimeout_frame
  by (fastforce simp: poll_timeout_def Let_def split: if_splits prod.splits sum.splits)+

termination poll_timeouts
proof (relation "measure (\<lambda>(now, i, m). length (timeouts (state_at m (currentState m))) - i)")
  show "wf (measure (\<lambda>(now, i, m). length (timeouts (state_at m (currentState m))) - i))"
    by simp
next
  fix now i m x2 x y
  assume "i < length (timeouts (state_at m (currentState m)))"
    and "poll_timeout now i m = Inr x2" and "(x, y) = x2"
  then show "((now, Suc i, x), now, i, m)
      \<in> measure (\<lambda>(now, i, m). length (timeouts (state_at m (currentState m))) - i)"
    using poll_timeout_frame [of now i m x y] by auto
qed

subsection \<open>Construction\<close>

text \<open>
  C3 (as the code has it). The constructor has no failure path: for every
  \<^verbatim>\<open>numberOfStates\<close>, zero included, it returns a machine with exactly that many empty
  state records, \<^verbatim>\<open>currentState = previousState = 0\<close>, \<^verbatim>\<open>stateChanged = true\<close> and
  \<^verbatim>\<open>stateEnteredTime\<close> the clock reading.
\<close>

theorem construct_initial_machine:
  "states (EventStateMachine_new now n) = replicate (unat n) StateDefinition_new
   \<and> length (states (EventStateMachine_new now n)) = unat n
   \<and> numStates (EventStateMachine_new now n) = n
   \<and> currentState (EventStateMachine_new now n) = 0
   \<and> previousState (EventStateMachine_new now n) = 0
   \<and> stateChanged (EventStateMachine_new now n)
   \<and> stateEnteredTime (EventStateMachine_new now n) = now"
  by (simp add: EventStateMachine_new_def)

text \<open>
  C3, the claim as stated fails at \<^verbatim>\<open>numStates == 0\<close>: the constructor returns a machine
  of no state record, on which \<^verbatim>\<open>setState\<close> is a no-op.
\<close>

theorem construct_zero_counterexample:
  "EventStateMachine_new 42 0 =
     \<lparr>currentState = 0, previousState = 0, stateChanged = True, states = [],
      numStates = 0, stateEnteredTime = 42, debugEnabled = False,
      beforeStateChangeHandlers = [], afterStateChangeHandlers = []\<rparr>
   \<and> setState AVR 43 0 (EventStateMachine_new 42 0) = Inr (EventStateMachine_new 42 0, [])"
  by (simp add: EventStateMachine_new_def setState_def isValidState_def)

text \<open>
  On the machine of no state, \<^verbatim>\<open>update\<close> reads \<^verbatim>\<open>states[0]\<close>, which does not exist.
\<close>

lemma update_zero_states_faults: "update p now (EventStateMachine_new t 0) = Inl OutOfBounds"
  by (simp add: update_def EventStateMachine_new_def)

subsection \<open>Calls that change nothing\<close>

text \<open>
  C6. \<^verbatim>\<open>setState(s)\<close> while \<^verbatim>\<open>currentState == s\<close> returns the machine as it was, every
  field and every timer included, and causes no event: no callback or handler is called,
  no timer is detached or armed.
\<close>

theorem setState_current_is_noop:
  "setState p now (currentState m) m = Inr (m, [])"
  by (simp add: setState_def)

text \<open>
  C7. With \<^verbatim>\<open>state >= numStates\<close>, \<^verbatim>\<open>setState\<close> returns the machine as it was and
  causes no event, and each of the four add and four remove operations returns false and
  the machine as it was.
\<close>

theorem invalid_state_is_noop:
  assumes "numStates m \<le> s"
  shows "setState p now s m = Inr (m, [])
    \<and> addTimeout p s t c m = (False, m)
    \<and> addOnEnter p s c m = (False, m)
    \<and> addOnState p s c m = (False, m)
    \<and> addOnExit p s c m = (False, m)
    \<and> removeTimeout s t m = (False, m, [])
    \<and> removeOnEnter s c m = (False, m)
    \<and> removeOnState s c m = (False, m)
    \<and> removeOnExit s c m = (False, m)"
proof -
  from assms have "\<not> isValidState m s"
    by (simp add: isValidState_def not_less)
  then show ?thesis
    by (simp add: setState_def addTimeout_def addOnEnter_def addOnState_def addOnExit_def
        removeTimeout_def removeOnEnter_def removeOnState_def removeOnExit_def)
qed

theorem invalid_state_is_noop_witness:
  "numStates (EventStateMachine_new 0 3) \<le> 5
   \<and> setState AVR 7 5 (EventStateMachine_new 0 3) = Inr (EventStateMachine_new 0 3, [])
   \<and> addTimeout AVR 5 100 (Fn 1) (EventStateMachine_new 0 3) = (False, EventStateMachine_new 0 3)
   \<and> removeTimeout 5 100 (EventStateMachine_new 0 3) = (False, EventStateMachine_new 0 3, [])
   \<and> removeOnEnter 5 (Fn 1) (EventStateMachine_new 0 3) = (False, EventStateMachine_new 0 3)"
proof -
  have h: "numStates (EventStateMachine_new 0 3) \<le> 5"
    by (simp add: EventStateMachine_new_def)
  show ?thesis
    using h invalid_state_is_noop [OF h, of AVR 7 100 "Fn 1"] by simp
qed

subsection \<open>Registration\<close>

lemma valid_in_range: "well_formed m \<Longrightarrow> isValidState m s \<Longrightarrow> unat s < length (states m)"
  by (simp add: well_formed_def isValidState_def word_less_nat_alt)

lemma map_state_explicit:
  "map_state s f m = m\<lparr>states := (states m)[unat s := f (state_at m s)]\<rparr>"
  by (simp add: map_state_def state_at_def)

lemma map_timeouts_map_state:
  "(\<And>sd. timeouts (f sd) = timeouts sd) \<Longrightarrow>
     map timeouts (states (map_state s f m)) = map timeouts (states m)"
  by (cases "unat s < length (states m)")
    (simp_all add: map_state_def map_update list_update_same_conv list_update_beyond)

text \<open>
  C10 (as the code has it). For a valid state and a non-null callback, where the state's
  timeout container is not a full \<^verbatim>\<open>SimpleArray\<close>, \<^verbatim>\<open>addTimeout(state, 0, cb)\<close> returns
  true and appends an entry of duration 0, inactive, with that callback; and
  \<^verbatim>\<open>configureState\<close> with timeout 0 leaves every timeout list as it was, whatever its
  \<^verbatim>\<open>onTimeout\<close> argument.
\<close>

theorem addTimeout_zero_duration:
  assumes "well_formed m" and "isValidState m s" and "cb \<noteq> nullptr"
    and "p = AVR \<longrightarrow> length (timeouts (state_at m s)) < MAX_SIZE"
  shows "fst (addTimeout p s 0 cb m) = True
    \<and> timeouts (state_at (snd (addTimeout p s 0 cb m)) s) =
        timeouts (state_at m s) @
          [\<lparr>duration = 0, callback = cb, timer = TimerImplementation_new, active = False,
            stateIndex = (if p = ESP then 0 else s),
            timeoutIndex = (if p = ESP then 0 else of_nat (length (timeouts (state_at m s))))\<rparr>]
    \<and> map timeouts (states (configureState p s 0 onEnter onState onExit cb m)) =
        map timeouts (states m)"
proof -
  have r: "unat s < length (states m)"
    using assms(1,2) by (rule valid_in_range)
  have 1: "fst (addTimeout p s 0 cb m) = True"
    using assms(2,3) by (simp add: addTimeout_def Let_def)
  have 2: "timeouts (state_at (snd (addTimeout p s 0 cb m)) s) =
        timeouts (state_at m s) @
          [\<lparr>duration = 0, callback = cb, timer = TimerImplementation_new, active = False,
            stateIndex = (if p = ESP then 0 else s),
            timeoutIndex = (if p = ESP then 0 else of_nat (length (timeouts (state_at m s))))\<rparr>]"
    using assms(2,3,4) r
    by (simp add: addTimeout_def Let_def state_at_map_state push_back_def)
  have 3: "map timeouts (states (configureState p s 0 onEnter onState onExit cb m)) =
        map timeouts (states m)"
    by (simp add: configureState_def Let_def addOnEnter_def addOnState_def addOnExit_def
        map_timeouts_map_state)
  from 1 2 3 show ?thesis by blast
qed


text \<open>
  C10, the claim as stated fails on \<open>AVR\<close> once the state holds eight timeouts:
  \<^verbatim>\<open>addTimeout\<close> returns true and the machine is as it was, nothing appended.
\<close>

theorem addTimeout_full_counterexample:
  "isValidState full_machine 0
   \<and> length (timeouts (state_at full_machine 0)) = 8
   \<and> addTimeout AVR 0 0 (Fn 2) full_machine = (True, full_machine)"
  by code_simp

theorem addTimeout_zero_duration_witness:
  "well_formed (EventStateMachine_new 0 3) \<and> isValidState (EventStateMachine_new 0 3) 1
   \<and> Fn 7 \<noteq> nullptr
   \<and> fst (addTimeout AVR 1 0 (Fn 7) (EventStateMachine_new 0 3)) = True
   \<and> timeouts (state_at (snd (addTimeout AVR 1 0 (Fn 7) (EventStateMachine_new 0 3))) 1) =
        [\<lparr>duration = 0, callback = Fn 7, timer = TimerImplementation_new, active = False,
          stateIndex = 1, timeoutIndex = 0\<rparr>]
   \<and> map timeouts (states (configureState AVR 1 0 nullptr nullptr nullptr (Fn 7)
        (EventStateMachine_new 0 3))) = [[], [], []]"
proof -
  have a: "well_formed (EventStateMachine_new 0 3)"
    by code_simp
  have b: "isValidState (EventStateMachine_new 0 3) 1"
    by code_simp
  have c: "Fn 7 \<noteq> nullptr" by simp
  have t: "timeouts (state_at (EventStateMachine_new 0 3) 1) = []"
    by code_simp
  have d: "AVR = AVR \<longrightarrow> length (timeouts (state_at (EventStateMachine_new 0 3) 1)) < MAX_SIZE"
    by (simp add: t MAX_SIZE_def)
  have s: "map timeouts (states (EventStateMachine_new 0 3)) = [[], [], []]"
    by code_simp
  show ?thesis
    using a b c addTimeout_zero_duration [OF a b c d, of nullptr nullptr nullptr]
    by (simp add: t s)
qed

subsection \<open>Removal\<close>





lemma remove_first_decomp:
  "\<exists>x\<in>set xs. P x \<Longrightarrow>
     \<exists>ys x zs. xs = ys @ x # zs \<and> (\<forall>y\<in>set ys. \<not> P y) \<and> P x \<and> remove_first P xs = ys @ zs"
proof (induction xs)
  case Nil
  then show ?case by simp
next
  case (Cons a xs)
  show ?case
  proof (cases "P a")
    case True
    then have "a # xs = [] @ a # xs \<and> (\<forall>y\<in>set []. \<not> P y) \<and> P a \<and> remove_first P (a # xs) = [] @ xs"
      by simp
    then show ?thesis by blast
  next
    case False
    with Cons.prems have "\<exists>x\<in>set xs. P x" by auto
    from Cons.IH [OF this] obtain ys x zs where
      "xs = ys @ x # zs" "\<forall>y\<in>set ys. \<not> P y" "P x" "remove_first P xs = ys @ zs" by blast
    with False have "a # xs = (a # ys) @ x # zs \<and> (\<forall>y\<in>set (a # ys). \<not> P y) \<and> P x
        \<and> remove_first P (a # xs) = (a # ys) @ zs"
      by simp
    then show ?thesis by blast
  qed
qed

lemma remove_first_none: "\<forall>x\<in>set xs. \<not> P x \<Longrightarrow> remove_first P xs = xs"
  by (induction xs) auto


lemma erase_list_update [simp]: "erase (xs[i := y]) i = erase xs i"
  by (simp add: erase_def not_less list_update_beyond)









subsection \<open>What every call keeps\<close>

lemma map_state_fields [simp]:
  "numStates (map_state s f m) = numStates m"
  "previousState (map_state s f m) = previousState m"
  "stateChanged (map_state s f m) = stateChanged m"
  "stateEnteredTime (map_state s f m) = stateEnteredTime m"
  "debugEnabled (map_state s f m) = debugEnabled m"
  "beforeStateChangeHandlers (map_state s f m) = beforeStateChangeHandlers m"
  "afterStateChangeHandlers (map_state s f m) = afterStateChangeHandlers m"
  "length (states (map_state s f m)) = length (states m)"
  by (simp_all add: map_state_def)

lemma map_timeout_fields [simp]:
  "numStates (map_timeout s i f m) = numStates m"
  "previousState (map_timeout s i f m) = previousState m"
  "stateChanged (map_timeout s i f m) = stateChanged m"
  "stateEnteredTime (map_timeout s i f m) = stateEnteredTime m"
  "debugEnabled (map_timeout s i f m) = debugEnabled m"
  "beforeStateChangeHandlers (map_timeout s i f m) = beforeStateChangeHandlers m"
  "afterStateChangeHandlers (map_timeout s i f m) = afterStateChangeHandlers m"
  "length (states (map_timeout s i f m)) = length (states m)"
  by (simp_all add: map_timeout_def)

lemma well_formed_map_state [simp]: "well_formed (map_state s f m) = well_formed m"
  by (simp add: well_formed_def)

lemma well_formed_map_timeout [simp]: "well_formed (map_timeout s i f m) = well_formed m"
  by (simp add: well_formed_def)

lemma ids_valid_map_state [simp]: "ids_valid (map_state s f m) = ids_valid m"
  by (simp add: ids_valid_def)

lemma ids_valid_map_timeout [simp]: "ids_valid (map_timeout s i f m) = ids_valid m"
  by (simp add: ids_valid_def)

text \<open>What a call keeps: the number of states, the size of the array, and, unless it is a
  transition, both state ids.\<close>

lemma onTimeout_total:
  assumes "currentState m < numStates m"
  shows "\<exists>m' ev. onTimeout state index m = Inr (m', ev)
    \<and> numStates m' = numStates m \<and> length (states m') = length (states m)
    \<and> currentState m' = currentState m \<and> previousState m' = previousState m
    \<and> stateChanged m' = stateChanged m"
  using assms by (auto simp: onTimeout_def Let_def)

lemma poll_timeout_total:
  assumes "currentState m < numStates m"
  shows "\<exists>m' ev. poll_timeout now i m = Inr (m', ev)
    \<and> numStates m' = numStates m \<and> length (states m') = length (states m)
    \<and> currentState m' = currentState m \<and> previousState m' = previousState m
    \<and> stateChanged m' = stateChanged m"
proof (cases "active (timeouts (state_at m (currentState m)) ! i)")
  case False
  then show ?thesis by (simp add: poll_timeout_def Let_def)
next
  case True
  obtain fired t' called where u:
    "TimerImplementation_update now (timer (timeouts (state_at m (currentState m)) ! i)) =
       (fired, t', called)"
    by (cases "TimerImplementation_update now (timer (timeouts (state_at m (currentState m)) ! i))")
  define m1 where "m1 = map_timeout (currentState m) i (\<lambda>timeoutInfo. timeoutInfo\<lparr>timer := t'\<rparr>) m"
  have c1: "currentState m1 < numStates m1"
    using assms by (simp add: m1_def)
  from onTimeout_total [OF c1, of "currentState m" "of_nat i"]
  obtain m2 ev2 where o: "onTimeout (currentState m) (of_nat i) m1 = Inr (m2, ev2)"
    "numStates m2 = numStates m1" "length (states m2) = length (states m1)"
    "currentState m2 = currentState m1" "previousState m2 = previousState m1"
    "stateChanged m2 = stateChanged m1"
    by blast
  show ?thesis
    using True u o by (cases fired) (simp_all add: poll_timeout_def Let_def m1_def)
qed

lemma poll_timeouts_total:
  assumes "currentState m < numStates m"
  shows "\<exists>m' ev. poll_timeouts now i m = Inr (m', ev)
    \<and> numStates m' = numStates m \<and> length (states m') = length (states m)
    \<and> currentState m' = currentState m \<and> previousState m' = previousState m
    \<and> stateChanged m' = stateChanged m"
  using assms
proof (induction now i m rule: poll_timeouts.induct)
  case (1 now i m)
  show ?case
  proof (cases "i < length (timeouts (state_at m (currentState m)))")
    case False
    then show ?thesis by simp
  next
    case True
    from poll_timeout_total [OF "1.prems", of now i]
    obtain m1 ev1 where p: "poll_timeout now i m = Inr (m1, ev1)"
      "numStates m1 = numStates m" "length (states m1) = length (states m)"
      "currentState m1 = currentState m" "previousState m1 = previousState m"
      "stateChanged m1 = stateChanged m"
      by blast
    have c1: "currentState m1 < numStates m1"
      using "1.prems" p by simp
    from "1.IH" [OF True p(1) refl c1]
    obtain m2 ev2 where q: "poll_timeouts now (Suc i) m1 = Inr (m2, ev2)"
      "numStates m2 = numStates m1" "length (states m2) = length (states m1)"
      "currentState m2 = currentState m1" "previousState m2 = previousState m1"
      "stateChanged m2 = stateChanged m1"
      by blast
    have "poll_timeouts now i m = Inr (m2, ev1 @ ev2)"
      using True p(1) q(1) by (subst poll_timeouts.simps) simp
    with p q show ?thesis by simp
  qed
qed

lemma update_total:
  assumes "currentState m < numStates m"
  shows "\<exists>m' ev. update p now m = Inr (m', ev)
    \<and> numStates m' = numStates m \<and> length (states m') = length (states m)
    \<and> currentState m' = currentState m \<and> previousState m' = previousState m
    \<and> \<not> stateChanged m'"
proof (cases "p = ESP")
  case True
  with assms show ?thesis by (simp add: update_def)
next
  case False
  from poll_timeouts_total [OF assms, of now 0]
  obtain m1 ev1 where q: "poll_timeouts now 0 m = Inr (m1, ev1)"
    "numStates m1 = numStates m" "length (states m1) = length (states m)"
    "currentState m1 = currentState m" "previousState m1 = previousState m"
    by blast
  with assms False show ?thesis by (simp add: update_def)
qed

lemma setState_total:
  assumes "currentState m < numStates m"
  shows "\<exists>m' ev. setState p now s m = Inr (m', ev)
    \<and> numStates m' = numStates m \<and> length (states m') = length (states m)
    \<and> (if isValidState m s \<and> s \<noteq> currentState m
        then currentState m' = s \<and> previousState m' = currentState m \<and> stateChanged m'
        else m' = m)"
  using assms by (simp add: setState_def Let_def)


lemma add_remove_frame:
  "numStates (snd (addTimeout p s t c m)) = numStates m"
  "length (states (snd (addTimeout p s t c m))) = length (states m)"
  "currentState (snd (addTimeout p s t c m)) = currentState m"
  "previousState (snd (addTimeout p s t c m)) = previousState m"
  "stateChanged (snd (addTimeout p s t c m)) = stateChanged m"
  "numStates (snd (addOnEnter p s c m)) = numStates m"
  "length (states (snd (addOnEnter p s c m))) = length (states m)"
  "currentState (snd (addOnEnter p s c m)) = currentState m"
  "previousState (snd (addOnEnter p s c m)) = previousState m"
  "stateChanged (snd (addOnEnter p s c m)) = stateChanged m"
  "numStates (snd (addOnState p s c m)) = numStates m"
  "length (states (snd (addOnState p s c m))) = length (states m)"
  "currentState (snd (addOnState p s c m)) = currentState m"
  "previousState (snd (addOnState p s c m)) = previousState m"
  "stateChanged (snd (addOnState p s c m)) = stateChanged m"
  "numStates (snd (addOnExit p s c m)) = numStates m"
  "length (states (snd (addOnExit p s c m))) = length (states m)"
  "currentState (snd (addOnExit p s c m)) = currentState m"
  "previousState (snd (addOnExit p s c m)) = previousState m"
  "stateChanged (snd (addOnExit p s c m)) = stateChanged m"
  "numStates (fst (snd (removeTimeout s t m))) = numStates m"
  "length (states (fst (snd (removeTimeout s t m)))) = length (states m)"
  "currentState (fst (snd (removeTimeout s t m))) = currentState m"
  "previousState (fst (snd (removeTimeout s t m))) = previousState m"
  "stateChanged (fst (snd (removeTimeout s t m))) = stateChanged m"
  "numStates (snd (removeOnEnter s c m)) = numStates m"
  "length (states (snd (removeOnEnter s c m))) = length (states m)"
  "currentState (snd (removeOnEnter s c m)) = currentState m"
  "previousState (snd (removeOnEnter s c m)) = previousState m"
  "stateChanged (snd (removeOnEnter s c m)) = stateChanged m"
  "numStates (snd (removeOnState s c m)) = numStates m"
  "length (states (snd (removeOnState s c m))) = length (states m)"
  "currentState (snd (removeOnState s c m)) = currentState m"
  "previousState (snd (removeOnState s c m)) = previousState m"
  "stateChanged (snd (removeOnState s c m)) = stateChanged m"
  "numStates (snd (removeOnExit s c m)) = numStates m"
  "length (states (snd (removeOnExit s c m))) = length (states m)"
  "currentState (snd (removeOnExit s c m)) = currentState m"
  "previousState (snd (removeOnExit s c m)) = previousState m"
  "stateChanged (snd (removeOnExit s c m)) = stateChanged m"
  by (simp_all add: addTimeout_def addOnEnter_def addOnState_def addOnExit_def
      removeTimeout_def removeOnEnter_def removeOnState_def removeOnExit_def Let_def
      split: option.split)

lemma handler_frame:
  "numStates (addBeforeStateChangeHandler p h m) = numStates m"
  "length (states (addBeforeStateChangeHandler p h m)) = length (states m)"
  "currentState (addBeforeStateChangeHandler p h m) = currentState m"
  "previousState (addBeforeStateChangeHandler p h m) = previousState m"
  "stateChanged (addBeforeStateChangeHandler p h m) = stateChanged m"
  "numStates (addAfterStateChangeHandler p h m) = numStates m"
  "length (states (addAfterStateChangeHandler p h m)) = length (states m)"
  "currentState (addAfterStateChangeHandler p h m) = currentState m"
  "previousState (addAfterStateChangeHandler p h m) = previousState m"
  "stateChanged (addAfterStateChangeHandler p h m) = stateChanged m"
  "numStates (snd (removeBeforeStateChangeHandler h m)) = numStates m"
  "length (states (snd (removeBeforeStateChangeHandler h m))) = length (states m)"
  "currentState (snd (removeBeforeStateChangeHandler h m)) = currentState m"
  "previousState (snd (removeBeforeStateChangeHandler h m)) = previousState m"
  "stateChanged (snd (removeBeforeStateChangeHandler h m)) = stateChanged m"
  "numStates (snd (removeAfterStateChangeHandler h m)) = numStates m"
  "length (states (snd (removeAfterStateChangeHandler h m))) = length (states m)"
  "currentState (snd (removeAfterStateChangeHandler h m)) = currentState m"
  "previousState (snd (removeAfterStateChangeHandler h m)) = previousState m"
  "stateChanged (snd (removeAfterStateChangeHandler h m)) = stateChanged m"
  "numStates (setDebug b m) = numStates m"
  "length (states (setDebug b m)) = length (states m)"
  "currentState (setDebug b m) = currentState m"
  "previousState (setDebug b m) = previousState m"
  "stateChanged (setDebug b m) = stateChanged m"
  by (simp_all add: addBeforeStateChangeHandler_def addAfterStateChangeHandler_def
      removeBeforeStateChangeHandler_def removeAfterStateChangeHandler_def setDebug_def
      split: option.split)

lemma configureState_frame:
  "numStates (configureState p s t a b c d m) = numStates m"
  "length (states (configureState p s t a b c d m)) = length (states m)"
  "currentState (configureState p s t a b c d m) = currentState m"
  "previousState (configureState p s t a b c d m) = previousState m"
  "stateChanged (configureState p s t a b c d m) = stateChanged m"
  by (simp_all add: configureState_def Let_def add_remove_frame)

text \<open>
  Every call on a well-formed machine with valid ids returns, keeps the machine
  well-formed with valid ids, and leaves \<^verbatim>\<open>stateChanged\<close> false after \<^verbatim>\<open>update\<close>, true
  after a transition and as it was after anything else.
\<close>

lemma exec_total:
  assumes "well_formed m" and "ids_valid m"
  shows "\<exists>m' ev. exec p now c m = Inr (m', ev)
    \<and> well_formed m' \<and> ids_valid m' \<and> numStates m' = numStates m
    \<and> stateChanged m' =
        (if c = Update then False else if is_transition m c then True else stateChanged m)"
proof -
  from assms(2) have cur: "currentState m < numStates m"
    by (simp add: ids_valid_def)
  show ?thesis
  proof (cases c)
    case (OnTimeout s i)
    from onTimeout_total [OF cur, of s i] assms OnTimeout show ?thesis
      by (auto simp: well_formed_def ids_valid_def)
  next
    case (SetState s)
    from setState_total [OF cur, of p now s] assms SetState show ?thesis
      by (auto simp: well_formed_def ids_valid_def isValidState_def split: if_splits)
  next
    case Update
    from update_total [OF cur, of p now] assms Update show ?thesis
      by (auto simp: well_formed_def ids_valid_def)
  next
    case (RemoveTimeout s t)
    let ?m' = "fst (snd (removeTimeout s t m))"
    have fl: "(if c = Update then False else if is_transition m c then True
               else stateChanged m) = stateChanged m"
      using RemoveTimeout by simp
    have "exec p now c m = Inr (?m', snd (snd (removeTimeout s t m)))"
      using RemoveTimeout by simp
    moreover have "well_formed ?m' \<and> ids_valid ?m' \<and> numStates ?m' = numStates m
        \<and> stateChanged ?m' = stateChanged m"
      using assms by (simp add: well_formed_def ids_valid_def add_remove_frame)
    ultimately show ?thesis
      unfolding fl by blast
  qed (use assms in \<open>simp_all add: well_formed_def ids_valid_def add_remove_frame
        handler_frame configureState_frame split_beta\<close>)
qed

lemma run_total:
  assumes "well_formed m" and "ids_valid m"
  shows "\<exists>m' ev. run p cs m = Inr (m', ev)
    \<and> well_formed m' \<and> ids_valid m' \<and> numStates m' = numStates m"
  using assms
proof (induction cs arbitrary: m)
  case Nil
  then show ?case by simp
next
  case (Cons tc cs)
  obtain now c where tc: "tc = (now, c)" by (cases tc)
  from exec_total [OF Cons.prems, of p now c]
  obtain m1 ev1 where e: "exec p now c m = Inr (m1, ev1)" "well_formed m1" "ids_valid m1"
    "numStates m1 = numStates m"
    by blast
  from Cons.IH [OF e(2,3)]
  obtain m2 ev2 where r: "run p cs m1 = Inr (m2, ev2)" "well_formed m2" "ids_valid m2"
    "numStates m2 = numStates m1"
    by blast
  from e r tc show ?case by simp
qed

lemma construct_invariant:
  "0 < n \<Longrightarrow> well_formed (EventStateMachine_new now n) \<and> ids_valid (EventStateMachine_new now n)"
  by (simp add: well_formed_def ids_valid_def EventStateMachine_new_def)

text \<open>
  C4. From a machine constructed with \<^verbatim>\<open>numStates > 0\<close>, every sequence of calls of the
  public operations, at any clock readings and on any platform, returns without fault
  and leaves \<^verbatim>\<open>currentState\<close> and \<^verbatim>\<open>previousState\<close> below \<^verbatim>\<open>numStates\<close>, which is
  still the constructor's argument.
\<close>

theorem state_ids_always_valid:
  assumes "0 < n"
  shows "\<exists>m ev. run p cs (EventStateMachine_new now n) = Inr (m, ev)
    \<and> numStates m = n \<and> currentState m < numStates m \<and> previousState m < numStates m"
proof -
  from construct_invariant [OF assms, of now]
  have "well_formed (EventStateMachine_new now n)" "ids_valid (EventStateMachine_new now n)"
    by simp_all
  from run_total [OF this, of p cs]
  obtain m ev where "run p cs (EventStateMachine_new now n) = Inr (m, ev)" "ids_valid m"
    "numStates m = numStates (EventStateMachine_new now n)"
    by blast
  then show ?thesis
    by (auto simp: ids_valid_def EventStateMachine_new_def)
qed

theorem state_ids_always_valid_witness:
  "(0 :: uint8_t) < 3
   \<and> (\<exists>m ev. run AVR [(0, AddTimeout 1 100 (Fn 7)), (5, SetState 1), (150, Update),
                        (200, SetState 7), (210, OnTimeout 1 0), (220, SetState 2)]
                 (EventStateMachine_new 0 3) = Inr (m, ev)
        \<and> numStates m = 3 \<and> currentState m < numStates m \<and> previousState m < numStates m)"
  using state_ids_always_valid [of 3 AVR "[(0, AddTimeout 1 100 (Fn 7)), (5, SetState 1),
      (150, Update), (200, SetState 7), (210, OnTimeout 1 0), (220, SetState 2)]" 0]
  by simp

subsection \<open>Timeout dispatch\<close>

text \<open>
  C5. On a machine whose current state is valid, \<^verbatim>\<open>onTimeout(state, timeoutIndex)\<close>
  calls a callback exactly when \<^verbatim>\<open>state == currentState\<close> and the index is within the
  state's timeout list: it then clears the \<^verbatim>\<open>active\<close> flag of that entry, changes nothing
  else, and calls the entry's callback once with (currentState, previousState). In every
  other case the machine is as it was and nothing is called; so the fire of a timer armed
  for a state that is no longer current, which arrives as \<^verbatim>\<open>onTimeoutStatic(state, index)\<close>,
  calls nothing.
\<close>

theorem onTimeout_only_current_state:
  assumes "currentState m < numStates m"
  shows "onTimeout state index m =
      (if state = currentState m \<and> unat index < length (timeouts (state_at m state))
       then Inr (m\<lparr>states := (states m)[unat state := (state_at m state)
                    \<lparr>timeouts := (timeouts (state_at m state))
                       [unat index := (timeouts (state_at m state) ! unat index)
                                        \<lparr>active := False\<rparr>]\<rparr>]\<rparr>,
                 [StateCall (callback (timeouts (state_at m state) ! unat index))
                    (currentState m) (previousState m)])
       else Inr (m, []))
    \<and> onTimeoutStatic state index m = onTimeout state index m"
proof (cases "state = currentState m \<and> unat index < length (timeouts (state_at m state))")
  case False
  with assms show ?thesis
    by (auto simp: onTimeout_def onTimeoutStatic_def)
next
  case True
  let ?i = "unat index"
  let ?m1 = "map_timeout state ?i (\<lambda>timeoutInfo. timeoutInfo\<lparr>active := False\<rparr>) m"
  from True have st: "state = currentState m"
    and ix: "?i < length (timeouts (state_at m state))"
    by blast+
  have cb: "callback (timeouts (state_at ?m1 state) ! ?i) =
      callback (timeouts (state_at m state) ! ?i)"
    using ix
    by (cases "unat state < length (states m)")
      (simp_all add: map_timeout_def state_at_map_state)
  have "onTimeout state index m =
      Inr (?m1, [StateCall (callback (timeouts (state_at ?m1 state) ! ?i))
                   (currentState ?m1) (previousState ?m1)])"
    using ix assms unfolding st by (simp add: onTimeout_def Let_def)
  then have "onTimeout state index m =
      Inr (?m1, [StateCall (callback (timeouts (state_at m state) ! ?i))
                   (currentState m) (previousState m)])"
    by (simp add: cb)
  moreover have "?m1 = m\<lparr>states := (states m)[unat state := (state_at m state)
                    \<lparr>timeouts := (timeouts (state_at m state))
                       [unat index := (timeouts (state_at m state) ! unat index)
                                        \<lparr>active := False\<rparr>]\<rparr>]\<rparr>"
    by (simp add: map_timeout_def map_state_explicit)
  ultimately show ?thesis
    using st ix by (simp add: onTimeoutStatic_def)
qed

theorem onTimeout_only_current_state_witness:
  "currentState entered_machine < numStates entered_machine
   \<and> currentState entered_machine = 1 \<and> previousState entered_machine = 0
   \<and> onTimeout 0 0 entered_machine = Inr (entered_machine, [])
   \<and> onTimeoutStatic 0 0 entered_machine = Inr (entered_machine, [])
   \<and> onTimeout 1 3 entered_machine = Inr (entered_machine, [])
   \<and> map_sum id snd (onTimeout 1 1 entered_machine) = Inr [StateCall (Fn 4) 1 0]"
proof -
  have c: "currentState entered_machine < numStates entered_machine"
    by code_simp
  have e: "currentState entered_machine = 1 \<and> previousState entered_machine = 0
      \<and> length (timeouts (state_at entered_machine 1)) = 3
      \<and> callback (timeouts (state_at entered_machine 1) ! 1) = Fn 4"
    by code_simp
  from onTimeout_only_current_state [OF c, of 0 0] e
  have 1: "onTimeout 0 0 entered_machine = Inr (entered_machine, [])
      \<and> onTimeoutStatic 0 0 entered_machine = Inr (entered_machine, [])"
    by simp
  from onTimeout_only_current_state [OF c, of 1 3] e
  have 2: "onTimeout 1 3 entered_machine = Inr (entered_machine, [])"
    by simp
  from onTimeout_only_current_state [OF c, of 1 1] e
  have 3: "map_sum id snd (onTimeout 1 1 entered_machine) = Inr [StateCall (Fn 4) 1 0]"
    by simp
  from c e 1 2 3 show ?thesis by blast
qed

subsection \<open>Transition\<close>

lemma upt_0_Suc_map: "[0..<Suc n] = 0 # map Suc [0..<n]"
  by (simp add: upt_conv_Cons map_Suc_upt del: upt_Suc)

lemma map_nth_upt: "map (\<lambda>i. f (xs ! i)) [0..<length xs] = map f xs"
  by (rule nth_equalityI) simp_all

lemma arm_events_eq:
  "arm_events p s i ts =
     map (\<lambda>k. TimerOnceMs s (i + k) (duration (ts ! k)) (arm_fn p s (i + k))) [0..<length ts]"
proof (induction ts arbitrary: i)
  case Nil
  then show ?case by simp
next
  case (Cons t ts)
  show ?case
    by (simp add: Cons.IH upt_0_Suc_map comp_def del: upt_Suc)
qed

lemma arm_timeouts_eq:
  "arm_timeouts p now s i ts =
     map (\<lambda>k. arm_timeout p now s (i + k) (ts ! k)) [0..<length ts]"
proof (induction ts arbitrary: i)
  case Nil
  then show ?case by simp
next
  case (Cons t ts)
  show ?case
    by (simp add: Cons.IH upt_0_Suc_map comp_def del: upt_Suc)
qed

lemma length_arm_timeouts [simp]: "length (arm_timeouts p now s i ts) = length ts"
  by (simp add: arm_timeouts_eq)

lemma arm_timeout_armed:
  "active (arm_timeout p now s i ti) \<and> isActive (timer (arm_timeout p now s i ti))
   \<and> t_startTime (timer (arm_timeout p now s i ti)) = now
   \<and> t_duration (timer (arm_timeout p now s i ti)) = duration ti
   \<and> t_callback (timer (arm_timeout p now s i ti)) = arm_fn p s i
   \<and> duration (arm_timeout p now s i ti) = duration ti
   \<and> callback (arm_timeout p now s i ti) = callback ti"
  by (simp add: arm_timeout_def once_ms_def isActive_def)

lemma cancel_timeout_cancelled:
  "\<not> active (cancel_timeout ti) \<and> \<not> isActive (timer (cancel_timeout ti))
   \<and> duration (cancel_timeout ti) = duration ti \<and> callback (cancel_timeout ti) = callback ti"
  by (simp add: cancel_timeout_def detach_def isActive_def)

lemma setState_transition:
  assumes wf: "well_formed m" and cur: "currentState m < numStates m"
    and v: "isValidState m new" and ne: "new \<noteq> currentState m"
  shows "setState p now new m =
     Inr (m\<lparr>previousState := currentState m, currentState := new, stateEnteredTime := now,
            stateChanged := True,
            states := (states m)
              [unat (currentState m) := (state_at m (currentState m))
                 \<lparr>timeouts := map cancel_timeout (timeouts (state_at m (currentState m)))\<rparr>,
               unat new := (state_at m new)
                 \<lparr>timeouts := arm_timeouts p now new 0 (timeouts (state_at m new))\<rparr>]\<rparr>,
          map (\<lambda>h. GlobalCall h (currentState m) new) (beforeStateChangeHandlers m)
          @ map (TimerDetach (currentState m))
              [0..<length (timeouts (state_at m (currentState m)))]
          @ map (\<lambda>c. StateCall c (currentState m) new) (onExits (state_at m (currentState m)))
          @ map (\<lambda>c. StateCall c new (currentState m)) (onEnters (state_at m new))
          @ map (\<lambda>i. TimerOnceMs new i (duration (timeouts (state_at m new) ! i)) (arm_fn p new i))
              [0..<length (timeouts (state_at m new))]
          @ map (\<lambda>h. GlobalCall h (currentState m) new) (afterStateChangeHandlers m))"
proof -
  let ?c = "currentState m"
  have rc: "unat ?c < length (states m)" and rn: "unat new < length (states m)"
    using wf cur v by (simp_all add: well_formed_def isValidState_def word_less_nat_alt)
  have un: "unat new \<noteq> unat ?c" "unat ?c \<noteq> unat new"
    using ne by (simp_all add: word_unat_eq_iff)
  define m1 where "m1 = map_state ?c (\<lambda>sd. sd\<lparr>timeouts := map cancel_timeout (timeouts sd)\<rparr>) m"
  define m2 where "m2 = m1\<lparr>previousState := currentState m1, currentState := new,
                    stateEnteredTime := now, stateChanged := True\<rparr>"
  define m3 where "m3 = map_state (currentState m2)
       (\<lambda>sd. sd\<lparr>timeouts := arm_timeouts p now (currentState m2) 0 (timeouts sd)\<rparr>) m2"
  have c1: "currentState m1 = ?c" by (simp add: m1_def)
  have ex: "onExits (state_at m1 ?c) = onExits (state_at m ?c)"
    using rc by (simp add: m1_def state_at_map_state)
  have c2: "currentState m2 = new" "previousState m2 = ?c"
    by (simp_all add: m2_def c1)
  have s2n: "state_at m2 new = state_at m new"
    using rc ne by (simp add: m2_def m1_def state_at_def map_state_def un)
  have c3: "currentState m3 = new" "previousState m3 = ?c"
    "afterStateChangeHandlers m3 = afterStateChangeHandlers m"
    by (simp_all add: m3_def c2) (simp add: m2_def m1_def)
  have m3: "m3 = m\<lparr>previousState := ?c, currentState := new, stateEnteredTime := now,
            stateChanged := True,
            states := (states m)
              [unat ?c := (state_at m ?c)
                 \<lparr>timeouts := map cancel_timeout (timeouts (state_at m ?c))\<rparr>,
               unat new := (state_at m new)
                 \<lparr>timeouts := arm_timeouts p now new 0 (timeouts (state_at m new))\<rparr>]\<rparr>"
    using un by (simp add: m3_def m2_def m1_def map_state_def state_at_def)
  have "setState p now new m =
     Inr (m3,
          map (\<lambda>h. GlobalCall h ?c new) (beforeStateChangeHandlers m)
          @ map (TimerDetach ?c) [0..<length (timeouts (state_at m ?c))]
          @ map (\<lambda>c. StateCall c (currentState m1) new) (onExits (state_at m1 (currentState m1)))
          @ map (\<lambda>c. StateCall c (currentState m2) (previousState m2))
              (onEnters (state_at m2 (currentState m2)))
          @ arm_events p (currentState m2) 0 (timeouts (state_at m2 (currentState m2)))
          @ map (\<lambda>h. GlobalCall h (previousState m3) (currentState m3))
              (afterStateChangeHandlers m3))"
    using cur v ne by (simp add: setState_def Let_def m1_def m2_def m3_def)
  then show ?thesis
    by (simp add: c1 ex c2 s2n c3 arm_events_eq) (simp add: m3)
qed


text \<open>
  C1. On a well-formed machine whose current state is valid, \<^verbatim>\<open>setState(newState)\<close> with
  a valid \<^verbatim>\<open>newState\<close> other than the current state returns, and the events it causes
  are exactly, in this order: every before-change handler in registration order with
  (old, new); the detach of every timer of the old state; every exit callback of the old
  state in registration order with (old, new); every enter callback of the new state in
  registration order with (new, old); the arming of every timeout of the new state with
  its duration (the function handed to the timer is the lambda capturing state and index
  on \<open>ESP\<close> and \<^verbatim>\<open>nullptr\<close> elsewhere); every after-change handler in registration order
  with (old, new). Each list is walked once. The exit callbacks still see the old state as
  current and the enter callbacks see the new one with the old one as previous, so the
  four assignments lie between the two passes. In the machine returned,
  \<^verbatim>\<open>previousState\<close> is the old state, \<^verbatim>\<open>currentState\<close> the new one,
  \<^verbatim>\<open>stateEnteredTime\<close> the clock reading and \<^verbatim>\<open>stateChanged\<close> true; every timeout of the
  old state is inactive with its timer stopped, every timeout of the new state is active
  with its timer running from the clock reading for the entry's duration; the registered
  callbacks, durations and handlers are as before, and so is every other state.
\<close>

theorem setState_sequence:
  assumes "well_formed m" and "currentState m < numStates m"
    and "isValidState m new" and "new \<noteq> currentState m"
  shows "\<exists>m'. setState p now new m =
       Inr (m',
            map (\<lambda>h. GlobalCall h (currentState m) new) (beforeStateChangeHandlers m)
            @ map (TimerDetach (currentState m))
                [0..<length (timeouts (state_at m (currentState m)))]
            @ map (\<lambda>c. StateCall c (currentState m) new) (onExits (state_at m (currentState m)))
            @ map (\<lambda>c. StateCall c new (currentState m)) (onEnters (state_at m new))
            @ map (\<lambda>i. TimerOnceMs new i (duration (timeouts (state_at m new) ! i))
                         (if p = ESP then OnTimeoutLambda new i else NullFn))
                [0..<length (timeouts (state_at m new))]
            @ map (\<lambda>h. GlobalCall h (currentState m) new) (afterStateChangeHandlers m))
     \<and> previousState m' = currentState m \<and> currentState m' = new
     \<and> stateEnteredTime m' = now \<and> stateChanged m'
     \<and> numStates m' = numStates m \<and> length (states m') = length (states m)
     \<and> debugEnabled m' = debugEnabled m
     \<and> beforeStateChangeHandlers m' = beforeStateChangeHandlers m
     \<and> afterStateChangeHandlers m' = afterStateChangeHandlers m
     \<and> (\<forall>s. onEnters (state_at m' s) = onEnters (state_at m s)
            \<and> onStates (state_at m' s) = onStates (state_at m s)
            \<and> onExits (state_at m' s) = onExits (state_at m s)
            \<and> map duration (timeouts (state_at m' s)) = map duration (timeouts (state_at m s))
            \<and> map callback (timeouts (state_at m' s)) = map callback (timeouts (state_at m s)))
     \<and> (\<forall>s. s \<noteq> currentState m \<and> s \<noteq> new \<longrightarrow> state_at m' s = state_at m s)
     \<and> (\<forall>ti \<in> set (timeouts (state_at m' (currentState m))).
            \<not> active ti \<and> \<not> isActive (timer ti))
     \<and> (\<forall>ti \<in> set (timeouts (state_at m' new)).
            active ti \<and> isActive (timer ti) \<and> t_startTime (timer ti) = now
            \<and> t_duration (timer ti) = duration ti)"
proof -
  let ?c = "currentState m"
  let ?A = "(state_at m ?c)\<lparr>timeouts := map cancel_timeout (timeouts (state_at m ?c))\<rparr>"
  let ?B = "(state_at m new)\<lparr>timeouts := arm_timeouts p now new 0 (timeouts (state_at m new))\<rparr>"
  define m' where "m' = m\<lparr>previousState := ?c, currentState := new, stateEnteredTime := now,
      stateChanged := True, states := (states m)[unat ?c := ?A, unat new := ?B]\<rparr>"
  have rc: "unat ?c < length (states m)" and rn: "unat new < length (states m)"
    using assms(1-3) by (simp_all add: well_formed_def isValidState_def word_less_nat_alt)
  have at: "state_at m' s = (if s = new then ?B else if s = ?c then ?A else state_at m s)" for s
    using rc rn assms(4)
    by (simp add: m'_def state_at_def nth_list_update word_unat_eq_iff)
  have run: "setState p now new m =
       Inr (m',
            map (\<lambda>h. GlobalCall h ?c new) (beforeStateChangeHandlers m)
            @ map (TimerDetach ?c) [0..<length (timeouts (state_at m ?c))]
            @ map (\<lambda>c. StateCall c ?c new) (onExits (state_at m ?c))
            @ map (\<lambda>c. StateCall c new ?c) (onEnters (state_at m new))
            @ map (\<lambda>i. TimerOnceMs new i (duration (timeouts (state_at m new) ! i))
                         (if p = ESP then OnTimeoutLambda new i else NullFn))
                [0..<length (timeouts (state_at m new))]
            @ map (\<lambda>h. GlobalCall h ?c new) (afterStateChangeHandlers m))"
    using setState_transition [OF assms, of p now] by (simp add: m'_def arm_fn_def)
  have fields: "previousState m' = ?c \<and> currentState m' = new
     \<and> stateEnteredTime m' = now \<and> stateChanged m'
     \<and> numStates m' = numStates m \<and> length (states m') = length (states m)
     \<and> debugEnabled m' = debugEnabled m
     \<and> beforeStateChangeHandlers m' = beforeStateChangeHandlers m
     \<and> afterStateChangeHandlers m' = afterStateChangeHandlers m"
    by (simp add: m'_def)
  have lists: "onEnters (state_at m' s) = onEnters (state_at m s)
            \<and> onStates (state_at m' s) = onStates (state_at m s)
            \<and> onExits (state_at m' s) = onExits (state_at m s)
            \<and> map duration (timeouts (state_at m' s)) = map duration (timeouts (state_at m s))
            \<and> map callback (timeouts (state_at m' s)) = map callback (timeouts (state_at m s))"
    for s
    by (simp add: at arm_timeouts_eq arm_timeout_armed cancel_timeout_cancelled comp_def
        map_nth_upt)
  have others: "s \<noteq> ?c \<and> s \<noteq> new \<longrightarrow> state_at m' s = state_at m s" for s
    by (simp add: at)
  have old: "\<forall>ti \<in> set (timeouts (state_at m' ?c)). \<not> active ti \<and> \<not> isActive (timer ti)"
    using assms(4) by (auto simp: at cancel_timeout_cancelled)
  have new: "\<forall>ti \<in> set (timeouts (state_at m' new)).
            active ti \<and> isActive (timer ti) \<and> t_startTime (timer ti) = now
            \<and> t_duration (timer ti) = duration ti"
    by (auto simp: at arm_timeouts_eq arm_timeout_armed)
  from run fields lists others old new show ?thesis
    by blast
qed

theorem setState_sequence_witness:
  "well_formed demo_machine \<and> currentState demo_machine < numStates demo_machine
   \<and> isValidState demo_machine 1 \<and> 1 \<noteq> currentState demo_machine
   \<and> (\<exists>m'. setState AVR 10 1 demo_machine =
          Inr (m', [GlobalCall (Fn 6) 0 1, TimerDetach 0 0, StateCall (Fn 8) 0 1,
                    StateCall (Fn 1) 1 0, StateCall (Fn 2) 1 0, StateCall (Fn 1) 1 0,
                    TimerOnceMs 1 0 100 NullFn, TimerOnceMs 1 1 50 NullFn,
                    TimerOnceMs 1 2 100 NullFn, GlobalCall (Fn 7) 0 1])
        \<and> previousState m' = 0 \<and> currentState m' = 1 \<and> stateEnteredTime m' = 10
        \<and> stateChanged m')"
proof -
  have a: "well_formed demo_machine"
    and b: "currentState demo_machine < numStates demo_machine"
    and c: "isValidState demo_machine 1" and d: "1 \<noteq> currentState demo_machine"
    by code_simp+
  have cs: "currentState demo_machine = 0"
    by code_simp
  have tr: "map (\<lambda>h. GlobalCall h 0 1)
              (beforeStateChangeHandlers demo_machine)
            @ map (TimerDetach 0)
                [0..<length (timeouts (state_at demo_machine 0))]
            @ map (\<lambda>c. StateCall c 0 1)
                (onExits (state_at demo_machine 0))
            @ map (\<lambda>c. StateCall c 1 0)
                (onEnters (state_at demo_machine 1))
            @ map (\<lambda>i. TimerOnceMs 1 i (duration (timeouts (state_at demo_machine 1) ! i))
                         (if AVR = ESP then OnTimeoutLambda 1 i else NullFn))
                [0..<length (timeouts (state_at demo_machine 1))]
            @ map (\<lambda>h. GlobalCall h 0 1)
                (afterStateChangeHandlers demo_machine)
          = [GlobalCall (Fn 6) 0 1, TimerDetach 0 0, StateCall (Fn 8) 0 1,
             StateCall (Fn 1) 1 0, StateCall (Fn 2) 1 0, StateCall (Fn 1) 1 0,
             TimerOnceMs 1 0 100 NullFn, TimerOnceMs 1 1 50 NullFn,
             TimerOnceMs 1 2 100 NullFn, GlobalCall (Fn 7) 0 1]"
    by code_simp
  from setState_sequence [OF a b c d, of AVR 10]
  have "\<exists>m'. setState AVR 10 1 demo_machine =
          Inr (m', [GlobalCall (Fn 6) 0 1, TimerDetach 0 0, StateCall (Fn 8) 0 1,
                    StateCall (Fn 1) 1 0, StateCall (Fn 2) 1 0, StateCall (Fn 1) 1 0,
                    TimerOnceMs 1 0 100 NullFn, TimerOnceMs 1 1 50 NullFn,
                    TimerOnceMs 1 2 100 NullFn, GlobalCall (Fn 7) 0 1])
        \<and> previousState m' = 0 \<and> currentState m' = 1 \<and> stateEnteredTime m' = 10
        \<and> stateChanged m'"
    unfolding tr cs by blast
  with a b c d show ?thesis by blast
qed

subsection \<open>Polling for timeouts\<close>

text \<open>
  A timer armed with \<^verbatim>\<open>nullptr\<close>, as the polling branch of \<^verbatim>\<open>setState\<close> arms it, never
  reports expiry: \<^verbatim>\<open>TimerImplementation::update\<close> returns true only under
  \<^verbatim>\<open>if (callback)\<close>.
\<close>

lemma polling_timer_never_reports:
  "fst (TimerImplementation_update now (once_ms start ms NullFn t)) = False"
  by (simp add: TimerImplementation_update_def once_ms_def)

text \<open>
  C2, the code at the scenario of the claim. Three states, \<^verbatim>\<open>addTimeout(1, 100, cb)\<close>,
  \<^verbatim>\<open>setState(1)\<close> at clock reading 0, \<^verbatim>\<open>update()\<close> at 150 and again at 151, on either
  polling platform: the only event of the whole run is the arming of the timer. The
  callback is never called.
\<close>

theorem polling_timeout_never_fires:
  "map_sum id snd
     (run AVR [(0, AddTimeout 1 100 (Fn 7)), (0, SetState 1), (150, Update), (151, Update)]
        (EventStateMachine_new 0 3)) = Inr [TimerOnceMs 1 0 100 NullFn]
   \<and> map_sum id snd
     (run RP2040 [(0, AddTimeout 1 100 (Fn 7)), (0, SetState 1), (150, Update), (151, Update)]
        (EventStateMachine_new 0 3)) = Inr [TimerOnceMs 1 0 100 NullFn]"
  by code_simp

subsection \<open>Callbacks that change the state\<close>

text \<open>
  A \<^verbatim>\<open>setState\<close> call changes no list's length, so both loops of \<open>update_app\<close> end:
  the index grows and no list does.
\<close>

lemma state_at_fields [simp]:
  "state_at (m\<lparr>previousState := a\<rparr>) s = state_at m s"
  "state_at (m\<lparr>currentState := b\<rparr>) s = state_at m s"
  "state_at (m\<lparr>stateEnteredTime := c\<rparr>) s = state_at m s"
  "state_at (m\<lparr>stateChanged := d\<rparr>) s = state_at m s"
  by (simp_all add: state_at_def)

lemma setState_lists:
  assumes "setState p now new m = Inr (m', ev)"
  shows "length (timeouts (state_at m' s)) = length (timeouts (state_at m s))"
    and "onStates (state_at m' s) = onStates (state_at m s)"
  using assms
  by (auto simp: setState_def Let_def state_at_map_state split: if_splits)

lemma set_states_lists:
  assumes "set_states p now ss m = Inr (m', ev)"
  shows "length (timeouts (state_at m' s)) = length (timeouts (state_at m s))
    \<and> onStates (state_at m' s) = onStates (state_at m s)"
  using assms
proof (induction ss arbitrary: m ev)
  case Nil
  then show ?case by simp
next
  case (Cons a ss)
  from Cons.prems obtain m1 ev1 ev2 where 1: "setState p now a m = Inr (m1, ev1)"
    and 2: "set_states p now ss m1 = Inr (m', ev2)"
    by (auto split: sum.splits)
  from Cons.IH [OF 2] setState_lists [OF 1, of s] show ?case by simp
qed

lemma call_back_lists:
  assumes "call_back app p now e m = Inr (m', ev)"
  shows "length (timeouts (state_at m' s)) = length (timeouts (state_at m s))"
    and "onStates (state_at m' s) = onStates (state_at m s)"
  using assms set_states_lists [of p now "app e" m m' _ s]
  by (auto simp: call_back_def split: sum.splits)

lemma onTimeout_app_lists:
  assumes "onTimeout_app app p now state index m = Inr (m', ev)"
  shows "length (timeouts (state_at m' s)) = length (timeouts (state_at m s))"
  using assms call_back_lists(1) [of app p now _ _ m' ev s]
  by (auto simp: onTimeout_app_def Let_def split: if_splits)

lemma poll_timeout_app_lists:
  assumes "poll_timeout_app app p now i m = Inr (m', ev)"
  shows "length (timeouts (state_at m' s)) = length (timeouts (state_at m s))"
proof -
  from assms consider "m' = m"
    | t' where "m' = map_timeout (currentState m) i (\<lambda>timeoutInfo. timeoutInfo\<lparr>timer := t'\<rparr>) m"
    | t' ev2 where "onTimeout_app app p now (currentState m) (of_nat i)
          (map_timeout (currentState m) i (\<lambda>timeoutInfo. timeoutInfo\<lparr>timer := t'\<rparr>) m) = Inr (m', ev2)"
    by (auto simp: poll_timeout_app_def Let_def split: if_splits prod.splits sum.splits)
  then show ?thesis
  proof cases
    case 1
    then show ?thesis by simp
  next
    case 2
    then show ?thesis by simp
  next
    case 3
    from onTimeout_app_lists [OF 3, of s] show ?thesis by simp
  qed
qed

lemma timeouts_le_Max:
  "length (timeouts (state_at m s)) \<le> Max (range (\<lambda>s. length (timeouts (state_at m s))))"
  by (rule Max_ge) simp_all

lemma onStates_le_Max:
  "length (onStates (state_at m s)) \<le> Max (range (\<lambda>s. length (onStates (state_at m s))))"
  by (rule Max_ge) simp_all

termination poll_timeouts_app
proof (relation "measure (\<lambda>(app, p, now, i, m).
    Max (range (\<lambda>s. length (timeouts (state_at m s)))) - i)")
  show "wf (measure (\<lambda>(app, p, now, i, m).
    Max (range (\<lambda>s. length (timeouts (state_at m s)))) - i))"
    by simp
next
  fix app p now i m x2 x y
  assume i: "i < length (timeouts (state_at m (currentState m)))"
    and r: "poll_timeout_app app p now i m = Inr x2" and x: "(x, y) = x2"
  from r x have "poll_timeout_app app p now i m = Inr (x, y)" by simp
  then have "Max (range (\<lambda>s. length (timeouts (state_at x s)))) =
      Max (range (\<lambda>s. length (timeouts (state_at m s))))"
    by (simp add: poll_timeout_app_lists)
  moreover from i timeouts_le_Max [of m "currentState m"]
  have "i < Max (range (\<lambda>s. length (timeouts (state_at m s))))" by (rule less_le_trans)
  ultimately show "((app, p, now, Suc i, x), app, p, now, i, m)
      \<in> measure (\<lambda>(app, p, now, i, m). Max (range (\<lambda>s. length (timeouts (state_at m s)))) - i)"
    by simp
qed

termination onState_loop
proof (relation "measure (\<lambda>(app, p, now, i, m).
    Max (range (\<lambda>s. length (onStates (state_at m s)))) - i)")
  show "wf (measure (\<lambda>(app, p, now, i, m).
    Max (range (\<lambda>s. length (onStates (state_at m s)))) - i))"
    by simp
next
  fix app p now i m x2 x y
  assume i: "i < length (onStates (state_at m (currentState m)))"
    and r: "call_back app p now
       (FunctionCall (onStates (state_at m (currentState m)) ! i) (currentState m)) m = Inr x2"
    and x: "(x, y) = x2"
  from r x have "call_back app p now
       (FunctionCall (onStates (state_at m (currentState m)) ! i) (currentState m)) m = Inr (x, y)"
    by simp
  then have "Max (range (\<lambda>s. length (onStates (state_at x s)))) =
      Max (range (\<lambda>s. length (onStates (state_at m s))))"
    by (simp add: call_back_lists(2))
  moreover from i onStates_le_Max [of m "currentState m"]
  have "i < Max (range (\<lambda>s. length (onStates (state_at m s))))" by (rule less_le_trans)
  ultimately show "((app, p, now, Suc i, x), app, p, now, i, m)
      \<in> measure (\<lambda>(app, p, now, i, m). Max (range (\<lambda>s. length (onStates (state_at m s)))) - i)"
    by simp
qed

declare poll_timeouts_app.simps [simp del] onState_loop.simps [simp del]

text \<open>With bodies that make no call, the definitions with an application are the plain ones.\<close>

lemma call_back_no_calls: "call_back (\<lambda>e. []) p now e m = Inr (m, [e])"
  by (simp add: call_back_def)

lemma onTimeout_app_no_calls: "onTimeout_app (\<lambda>e. []) p now state index m = onTimeout state index m"
  by (simp add: onTimeout_app_def onTimeout_def call_back_no_calls Let_def)

lemma poll_timeout_app_no_calls: "poll_timeout_app (\<lambda>e. []) p now i m = poll_timeout now i m"
  unfolding poll_timeout_app_def poll_timeout_def onTimeout_app_no_calls by (rule refl)

lemma poll_timeouts_app_no_calls:
  "poll_timeouts_app (\<lambda>e. []) p now i m = poll_timeouts now i m"
proof (induction now i m rule: poll_timeouts.induct)
  case (1 now i m)
  show ?case
  proof (cases "i < length (timeouts (state_at m (currentState m)))")
    case False
    then show ?thesis by (subst poll_timeouts_app.simps) simp
  next
    case True
    show ?thesis
    proof (cases "poll_timeout now i m")
      case (Inl e)
      with True show ?thesis
        by (subst poll_timeouts_app.simps, subst poll_timeouts.simps)
          (simp add: poll_timeout_app_no_calls)
    next
      case (Inr r)
      obtain m1 ev1 where r: "r = (m1, ev1)" by (cases r)
      from "1.IH" [OF True Inr r [symmetric]]
      have "poll_timeouts_app (\<lambda>e. []) p now (Suc i) m1 = poll_timeouts now (Suc i) m1" .
      with True Inr r show ?thesis
        by (subst poll_timeouts_app.simps, subst poll_timeouts.simps)
          (simp add: poll_timeout_app_no_calls)
    qed
  qed
qed

lemma onState_loop_no_calls:
  "onState_loop (\<lambda>e. []) p now i m =
     Inr (m, map (\<lambda>f. FunctionCall f (currentState m))
               (drop i (onStates (state_at m (currentState m)))))"
proof (induction "length (onStates (state_at m (currentState m))) - i" arbitrary: i)
  case 0
  then show ?case by (subst onState_loop.simps) simp
next
  case (Suc k)
  then have i: "i < length (onStates (state_at m (currentState m)))"
    and k: "k = length (onStates (state_at m (currentState m))) - Suc i"
    by simp_all
  from Suc.hyps(1) [OF k]
  have "onState_loop (\<lambda>e. []) p now (Suc i) m =
     Inr (m, map (\<lambda>f. FunctionCall f (currentState m))
               (drop (Suc i) (onStates (state_at m (currentState m)))))" .
  with i show ?case
    by (subst onState_loop.simps) (simp add: call_back_no_calls Cons_nth_drop_Suc [symmetric])
qed

lemma update_app_no_calls: "update_app (\<lambda>e. []) p now m = update p now m"
proof (cases "poll_timeouts now 0 m")
  case (Inl e)
  then show ?thesis
    by (simp add: update_app_def update_def poll_timeouts_app_no_calls onState_loop_no_calls
        del: poll_timeouts.simps)
next
  case (Inr r)
  obtain m1 ev1 where "r = (m1, ev1)" by (cases r)
  with Inr show ?thesis
    by (simp add: update_app_def update_def poll_timeouts_app_no_calls onState_loop_no_calls
        del: poll_timeouts.simps)
qed












end
